theory Spec2Isabelle
  imports Main "HOL-Library.Sublist"
begin

section \<open>JavaScript strings\<close>

text \<open>
  A JavaScript string is modelled as a \<^typ>\<open>string\<close>: a list of code units below 256.
  The empty string is the only falsy string, so \<open>!s\<close> is \<open>s = []\<close>.
  \<open>String.prototype.trim\<close> removes the white space of the language from both ends;
  below 256 these are TAB, LF, VT, FF, CR, SPACE and NBSP.
\<close>

definition whitespace :: "char list" where
  "whitespace = [CHR 0x09, CHR 0x0A, CHR 0x0B, CHR 0x0C, CHR 0x0D, CHR 0x20, CHR 0xA0]"

definition trim :: "string \<Rightarrow> string" where
  "trim s = rev (dropWhile (\<lambda>c. c \<in> set whitespace)
                  (rev (dropWhile (\<lambda>c. c \<in> set whitespace) s)))"

text \<open>
  \<open>String.prototype.toLowerCase\<close> on code units below 256: the Latin capital letters
  \<open>A\<close>..\<open>Z\<close> and the Latin-1 capitals (0xC0..0xDE without the multiplication sign 0xD7)
  move up by 32, every other unit stays.
\<close>

definition lower_char :: "char \<Rightarrow> char" where
  "lower_char c =
     (let n = (of_char c :: nat)
      in if (65 \<le> n \<and> n \<le> 90) \<or> (192 \<le> n \<and> n \<le> 222 \<and> n \<noteq> 215)
         then char_of (n + 32) else c)"

definition toLowerCase :: "string \<Rightarrow> string" where
  "toLowerCase s = map lower_char s"

text \<open>\<open>String.prototype.includes\<close>: a search for the needle at every position.\<close>

fun starts_with :: "string \<Rightarrow> string \<Rightarrow> bool" where
  "starts_with hay [] = True"
| "starts_with [] (n # ns) = False"
| "starts_with (h # hs) (n # ns) = (h = n \<and> starts_with hs ns)"

fun js_includes :: "string \<Rightarrow> string \<Rightarrow> bool" where
  "js_includes [] needle = (needle = [])"
| "js_includes (h # hs) needle = (starts_with (h # hs) needle \<or> js_includes hs needle)"

section \<open>Error values\<close>

text \<open>
  What the code inspects of a thrown value: whether it is an instance of
  \<open>MoneyloverApiError\<close>, its \<open>message\<close> and its \<open>code\<close> property. The \<open>code\<close> of an
  API error is whatever the response payload carried (a number, a string, ...), the
  \<open>code\<close> of a file-system error is a string such as \<open>ENOENT\<close>, and a plain \<open>Error\<close>
  has none.
\<close>

datatype js_code = CodeUndefined | CodeNull | CodeNumber int | CodeString string

datatype js_error = JsError (is_api_error: bool) (message: string) (code: js_code)

text \<open>\<open>new MoneyloverApiError(message, {code})\<close> stores \<open>code ?? null\<close>.\<close>

definition MoneyloverApiError :: "string \<Rightarrow> js_code \<Rightarrow> js_error" where
  "MoneyloverApiError msg c = JsError True msg (if c = CodeUndefined then CodeNull else c)"

text \<open>\<open>new Error(message)\<close>.\<close>

definition Error :: "string \<Rightarrow> js_error" where
  "Error msg = JsError False msg CodeUndefined"

text \<open>\<open>isAuthError\<close> of \<open>server.js\<close>.\<close>

definition isAuthError :: "js_error \<Rightarrow> bool" where
  "isAuthError error =
     (if \<not> is_api_error error then False
      else if (case code error of CodeNumber n \<Rightarrow> n = 1 \<or> n = 401 | _ \<Rightarrow> False) then True
      else (let msg = toLowerCase (message error)
            in js_includes msg ''unauth'' \<or> js_includes msg ''token''))"

section \<open>The Token Store (\<open>tokenCache.js\<close>)\<close>

subsection \<open>Files\<close>

text \<open>
  The text of a file is represented by what \<open>JSON.parse\<close> makes of it: the value it
  denotes, or a syntax error. \<open>JSON.stringify\<close> of a value is then the text that parses
  back to this value.
\<close>

datatype json =
    JNull | JBool bool | JNumber int | JString string
  | JArray "json list" | JObject "(string \<times> json) list"

datatype file_text = Json json | Malformed

definition JSON_parse :: "file_text \<Rightarrow> js_error + json" where
  "JSON_parse raw = (case raw of Json v \<Rightarrow> Inr v | Malformed \<Rightarrow> Inl (Error ''SyntaxError''))"

definition JSON_stringify :: "json \<Rightarrow> file_text" where
  "JSON_stringify v = Json v"

text \<open>\<open>data?.token\<close>: the property of an object (the last of duplicate keys), else undefined.\<close>

fun token_property :: "json \<Rightarrow> json option" where
  "token_property (JObject members) = map_of (rev members) ''token''"
| "token_property other = None"

text \<open>
  The file system: the regular files by path, and the calls the operating system
  refuses, each with the error code it then reports (permissions, a full disk, ...).
  Directories are not tracked: a recursive \<open>mkdir\<close> succeeds unless it is refused.
\<close>

datatype fs_call = Mkdir string | ReadFile string | WriteFile string | Chmod string | Unlink string

record filesystem =
  homedir :: string
  files :: "string \<rightharpoonup> file_text"
  refused :: "fs_call \<rightharpoonup> string"

definition fs_error :: "string \<Rightarrow> js_error" where
  "fs_error c = JsError False c (CodeString c)"

definition fs_mkdir :: "string \<Rightarrow> filesystem \<Rightarrow> js_error + unit" where
  "fs_mkdir path fs = (case refused fs (Mkdir path) of Some c \<Rightarrow> Inl (fs_error c) | None \<Rightarrow> Inr ())"

definition fs_readFile :: "string \<Rightarrow> filesystem \<Rightarrow> js_error + file_text" where
  "fs_readFile path fs =
     (case refused fs (ReadFile path) of
        Some c \<Rightarrow> Inl (fs_error c)
      | None \<Rightarrow> (case files fs path of None \<Rightarrow> Inl (fs_error ''ENOENT'') | Some raw \<Rightarrow> Inr raw))"

definition fs_writeFile :: "string \<Rightarrow> file_text \<Rightarrow> filesystem \<Rightarrow> (js_error + unit) \<times> filesystem" where
  "fs_writeFile path raw fs =
     (case refused fs (WriteFile path) of
        Some c \<Rightarrow> (Inl (fs_error c), fs)
      | None \<Rightarrow> (Inr (), fs\<lparr>files := (files fs)(path \<mapsto> raw)\<rparr>))"

definition fs_chmod :: "string \<Rightarrow> filesystem \<Rightarrow> js_error + unit" where
  "fs_chmod path fs =
     (case refused fs (Chmod path) of
        Some c \<Rightarrow> Inl (fs_error c)
      | None \<Rightarrow> (case files fs path of None \<Rightarrow> Inl (fs_error ''ENOENT'') | Some raw \<Rightarrow> Inr ()))"

definition fs_unlink :: "string \<Rightarrow> filesystem \<Rightarrow> (js_error + unit) \<times> filesystem" where
  "fs_unlink path fs =
     (case refused fs (Unlink path) of
        Some c \<Rightarrow> (Inl (fs_error c), fs)
      | None \<Rightarrow> (case files fs path of
                   None \<Rightarrow> (Inl (fs_error ''ENOENT''), fs)
                 | Some raw \<Rightarrow> (Inr (), fs\<lparr>files := (files fs)(path := None)\<rparr>)))"

subsection \<open>Paths\<close>

text \<open>\<open>Buffer.from(email, 'utf8').toString('base64url')\<close>: UTF-8, then unpadded base64url.\<close>

definition utf8 :: "string \<Rightarrow> nat list" where
  "utf8 s = concat (map (\<lambda>c. let n = (of_char c :: nat)
                               in if n < 128 then [n] else [192 + n div 64, 128 + n mod 64]) s)"

fun sextets :: "nat list \<Rightarrow> nat list" where
  "sextets (a # b # c # rest) =
     [a div 4, (a mod 4) * 16 + b div 16, (b mod 16) * 4 + c div 64, c mod 64] @ sextets rest"
| "sextets [a, b] = [a div 4, (a mod 4) * 16 + b div 16, (b mod 16) * 4]"
| "sextets [a] = [a div 4, (a mod 4) * 16]"
| "sextets [] = []"

definition base64url_alphabet :: string where
  "base64url_alphabet = ''ABCDEFGHIJKLMNOPQRSTUVWXYZabcdefghijklmnopqrstuvwxyz0123456789-_''"

definition encodeEmail :: "string \<Rightarrow> string" where
  "encodeEmail email = map (\<lambda>i. base64url_alphabet ! i) (sextets (utf8 email))"

definition CACHE_DIR :: "filesystem \<Rightarrow> string" where
  "CACHE_DIR fs = homedir fs @ ''/.moneylover-mcp''"

definition getTokenPath :: "filesystem \<Rightarrow> string \<Rightarrow> string" where
  "getTokenPath fs email = CACHE_DIR fs @ ''/'' @ encodeEmail email @ ''.json''"

subsection \<open>Operations\<close>

definition ensureCacheDir :: "filesystem \<Rightarrow> js_error + unit" where
  "ensureCacheDir fs =
     (case fs_mkdir (CACHE_DIR fs) fs of
        Inl error \<Rightarrow> if code error \<noteq> CodeString ''EEXIST'' then Inl error else Inr ()
      | Inr u \<Rightarrow> Inr ())"

text \<open>\<open>readToken\<close>: the result is the token, or \<open>None\<close> for \<open>null\<close>.\<close>

definition readToken :: "string \<Rightarrow> filesystem \<Rightarrow> js_error + string option" where
  "readToken email fs =
     (if email = [] then Inr None
      else (case (case fs_readFile (getTokenPath fs email) fs of
                    Inl e \<Rightarrow> Inl e
                  | Inr raw \<Rightarrow>
                      (case JSON_parse raw of
                         Inl e \<Rightarrow> Inl e
                       | Inr data \<Rightarrow>
                           Inr (case token_property data of
                                  Some (JString token) \<Rightarrow> if token \<noteq> [] then Some token else None
                                | _ \<Rightarrow> None)))
            of Inl error \<Rightarrow> if code error = CodeString ''ENOENT'' then Inr None else Inl error
             | Inr r \<Rightarrow> Inr r))"

text \<open>\<open>writeToken\<close>; \<open>now\<close> is \<open>new Date().toISOString()\<close>.\<close>

definition writeToken :: "string \<Rightarrow> string \<Rightarrow> string \<Rightarrow> filesystem \<Rightarrow> (js_error + unit) \<times> filesystem" where
  "writeToken email token now fs =
     (if email = [] \<or> token = [] then (Inr (), fs)
      else (case ensureCacheDir fs of
              Inl e \<Rightarrow> (Inl e, fs)
            | Inr u \<Rightarrow>
                (let payload = JObject [(''token'', JString token), (''updatedAt'', JString now)];
                     filePath = getTokenPath fs email
                 in case fs_writeFile filePath (JSON_stringify payload) fs of
                      (Inl e, fs') \<Rightarrow> (Inl e, fs')
                    | (Inr u', fs') \<Rightarrow>
                        (case fs_chmod filePath fs' of
                           Inl error \<Rightarrow>
                             if code error \<noteq> CodeString ''ENOENT'' then (Inl error, fs')
                             else (Inr (), fs')
                         | Inr u'' \<Rightarrow> (Inr (), fs')))))"

definition removeToken :: "string \<Rightarrow> filesystem \<Rightarrow> (js_error + unit) \<times> filesystem" where
  "removeToken email fs =
     (if email = [] then (Inr (), fs)
      else (case fs_unlink (getTokenPath fs email) fs of
              (Inl error, fs') \<Rightarrow>
                if code error \<noteq> CodeString ''ENOENT'' then (Inl error, fs') else (Inr (), fs')
            | (Inr u, fs') \<Rightarrow> (Inr (), fs')))"

section \<open>The token lifecycle (\<open>server.js\<close>)\<close>

subsection \<open>Configuration\<close>

text \<open>
  \<open>process.env\<close> is a map from keys to strings; it is taken as it stands once the
  environment file has been applied (\<open>loadEnvFileIfNeeded\<close> does so once, before
  the first read). \<open>getEnvConfig\<close> yields \<open>(email, password, directToken)\<close>.
\<close>

definition DIRECT_TOKEN_ENV_KEYS :: "string list" where
  "DIRECT_TOKEN_ENV_KEYS = [''MONEYLOVER_TOKEN'', ''MONEY_LOVER_TOKEN'']"

definition getEnvConfig :: "(string \<rightharpoonup> string) \<Rightarrow> string \<times> string \<times> string" where
  "getEnvConfig env =
     (let email = (case map_option trim (env ''EMAIL'') of Some v \<Rightarrow> v | None \<Rightarrow> []);
          password = (case map_option trim (env ''PASSWORD'') of Some v \<Rightarrow> v | None \<Rightarrow> []);
          directToken =
            (case find (\<lambda>v. case v of Some t \<Rightarrow> t \<noteq> [] | None \<Rightarrow> False)
                       (map (\<lambda>key. map_option trim (env key)) DIRECT_TOKEN_ENV_KEYS) of
               Some (Some t) \<Rightarrow> t
             | _ \<Rightarrow> [])
      in (email, password, directToken))"

subsection \<open>State\<close>

text \<open>
  An invocation of \<open>fetchEnvToken\<close> is an asynchronous function: it runs until its next
  \<open>await\<close>, is suspended there, and is resumed when the awaited operation is done. A
  suspended invocation is recorded with the local variables it needs (\<open>email\<close> and
  \<open>password\<close>); one that returned \<open>envTokenPromise\<close> settles as that promise does.
\<close>

datatype call_state =
    AwaitRemove string string
  | AwaitRead string string
  | AwaitPromise nat
  | Returned "string option"

text \<open>
  The promise built from \<open>MoneyloverClient.getToken(email, password)\<close> and its two
  handlers: the exchange is outstanding, or the \<open>then\<close> handler is suspended at
  \<open>await writeToken(email, token)\<close>, or the promise is settled.
\<close>

datatype exchange_state =
    Exchanging string string
  | Persisting string string
  | Fulfilled string
  | Rejected js_error

text \<open>What is observable from outside: calls of the collaborators, warnings, operations run.\<close>

datatype event =
    RemoveTokenCall string
  | ReadTokenCall string
  | WriteTokenCall string string
  | GetTokenCall string string
  | Warn string js_error
  | Operation string

text \<open>
  The module-level variables keep their names. \<open>envTokenPromise\<close> holds the index of a
  promise in \<open>exchanges\<close>. \<open>authenticator n email password\<close> is what the two requests of
  the \<open>n\<close>-th exchange yield: the error thrown on the way, or the \<open>access_token\<close> field of
  the second response. \<open>clock\<close> is the time of day as \<open>toISOString\<close> prints it.
\<close>

record world =
  process_env :: "string \<rightharpoonup> string"
  cachedEnvEmail :: string
  cachedEnvToken :: string
  envTokenPromise :: "nat option"
  cacheLoaded :: bool
  cachedEnvUsesDirectToken :: bool
  disk :: filesystem
  clock :: string
  authenticator :: "nat \<Rightarrow> string \<Rightarrow> string \<Rightarrow> js_error + string"
  calls :: "call_state list"
  exchanges :: "exchange_state list"
  events :: "event list"

text \<open>The state after module initialisation (and after \<open>clearEnvTokenCache\<close>).\<close>

definition start :: "(string \<rightharpoonup> string) \<Rightarrow> filesystem \<Rightarrow> string \<Rightarrow>
    (nat \<Rightarrow> string \<Rightarrow> string \<Rightarrow> js_error + string) \<Rightarrow> world" where
  "start env fs now auth =
     \<lparr>process_env = env, cachedEnvEmail = [], cachedEnvToken = [], envTokenPromise = None,
      cacheLoaded = False, cachedEnvUsesDirectToken = False, disk = fs, clock = now,
      authenticator = auth, calls = [], exchanges = [], events = []\<rparr>"

subsection \<open>\<open>MoneyloverClient.getToken\<close>\<close>

text \<open>
  The end of \<open>getToken\<close>: an error of the two requests is thrown on, and an empty
  \<open>access_token\<close> is an error. (The arguments are trimmed and non-empty when
  \<open>fetchEnvToken\<close> calls, so \<open>ensureString\<close> accepts them.)
\<close>

definition getToken :: "js_error + string \<Rightarrow> js_error + string" where
  "getToken answer =
     (case answer of
        Inl e \<Rightarrow> Inl e
      | Inr accessToken \<Rightarrow>
          if accessToken = [] then Inl (Error ''Access token not present in response'')
          else Inr accessToken)"

subsection \<open>\<open>fetchEnvToken\<close>, from one suspension to the next\<close>

text \<open>Lines 206 to 227: return the cached token, or start an exchange, or join the pending one.\<close>

definition fetchEnvToken_resolve :: "string \<Rightarrow> string \<Rightarrow> world \<Rightarrow> call_state \<times> world" where
  "fetchEnvToken_resolve email password w =
     (if cachedEnvToken w \<noteq> [] then (Returned (Some (cachedEnvToken w)), w)
      else (case envTokenPromise w of
              None \<Rightarrow>
                (let p = length (exchanges w)
                 in (AwaitPromise p,
                     w\<lparr>exchanges := exchanges w @ [Exchanging email password],
                       envTokenPromise := Some p,
                       events := events w @ [GetTokenCall email password]\<rparr>))
            | Some p \<Rightarrow> (AwaitPromise p, w)))"

text \<open>Lines 195 to 197: read the store unless the cache is loaded.\<close>

definition fetchEnvToken_load :: "string \<Rightarrow> string \<Rightarrow> world \<Rightarrow> call_state \<times> world" where
  "fetchEnvToken_load email password w =
     (if \<not> cacheLoaded w
      then (AwaitRead email password, w\<lparr>events := events w @ [ReadTokenCall email]\<rparr>)
      else fetchEnvToken_resolve email password w)"

text \<open>Lines 156 to 190: from the call to the first suspension.\<close>

definition fetchEnvToken_enter :: "bool \<Rightarrow> world \<Rightarrow> call_state \<times> world" where
  "fetchEnvToken_enter forceRefresh w =
     (case getEnvConfig (process_env w) of (email, password, directToken) \<Rightarrow>
        if directToken \<noteq> [] then
          (Returned (Some directToken),
           w\<lparr>cachedEnvUsesDirectToken := True, cachedEnvEmail := email,
             cachedEnvToken := directToken, envTokenPromise := None, cacheLoaded := True\<rparr>)
        else
          (let w1 = (if cachedEnvUsesDirectToken w
                     then w\<lparr>cachedEnvUsesDirectToken := False, cachedEnvToken := [],
                            envTokenPromise := None, cacheLoaded := False\<rparr>
                     else w)
           in if email = [] \<or> password = [] then (Returned None, w1)
              else
                (let w2 = (if email \<noteq> cachedEnvEmail w1
                           then w1\<lparr>cachedEnvEmail := email, cachedEnvToken := [],
                                   envTokenPromise := None, cacheLoaded := False\<rparr>
                           else w1)
                 in if forceRefresh
                    then (AwaitRemove email password,
                          w2\<lparr>cachedEnvToken := [], envTokenPromise := None, cacheLoaded := False,
                             events := events w2 @ [RemoveTokenCall email]\<rparr>)
                    else fetchEnvToken_load email password w2)))"

text \<open>Lines 190 to 194, resumed: \<open>removeToken\<close> is done; its error is logged.\<close>

definition after_removeToken :: "string \<Rightarrow> string \<Rightarrow> world \<Rightarrow> call_state \<times> world" where
  "after_removeToken email password w =
     (case removeToken email (disk w) of (r, fs') \<Rightarrow>
        (let w1 = w\<lparr>disk := fs'\<rparr>;
             w2 = (case r of
                     Inl error \<Rightarrow>
                       w1\<lparr>events := events w1 @ [Warn ''Failed to clear cached Money Lover token:'' error]\<rparr>
                   | Inr u \<Rightarrow> w1)
         in fetchEnvToken_load email password w2))"

text \<open>Lines 197 to 205, resumed: \<open>readToken\<close> is done; its error is logged.\<close>

definition after_readToken :: "string \<Rightarrow> string \<Rightarrow> world \<Rightarrow> call_state \<times> world" where
  "after_readToken email password w =
     (let w1 = (case readToken email (disk w) of
                  Inr (Some storedToken) \<Rightarrow>
                    if storedToken \<noteq> [] then w\<lparr>cachedEnvToken := storedToken\<rparr> else w
                | Inr None \<Rightarrow> w
                | Inl error \<Rightarrow>
                    w\<lparr>events := events w @ [Warn ''Failed to read cached Money Lover token:'' error]\<rparr>);
          w2 = w1\<lparr>cacheLoaded := True\<rparr>
      in fetchEnvToken_resolve email password w2)"

text \<open>
  Lines 210 to 225: the exchange \<open>p\<close> is over. On a token the \<open>then\<close> handler calls
  \<open>writeToken\<close> and is suspended; on an error the \<open>catch\<close> handler clears the marker.
\<close>

definition getToken_settled :: "nat \<Rightarrow> string \<Rightarrow> string \<Rightarrow> world \<Rightarrow> world" where
  "getToken_settled p email password w =
     (case getToken (authenticator w p email password) of
        Inr token \<Rightarrow>
          w\<lparr>exchanges := (exchanges w)[p := Persisting email token],
            events := events w @ [WriteTokenCall email token]\<rparr>
      | Inl error \<Rightarrow>
          w\<lparr>envTokenPromise := None, exchanges := (exchanges w)[p := Rejected error]\<rparr>)"

text \<open>Lines 213 to 220, resumed: \<open>writeToken\<close> is done; its error is logged.\<close>

definition after_writeToken :: "nat \<Rightarrow> string \<Rightarrow> string \<Rightarrow> world \<Rightarrow> world" where
  "after_writeToken p email token w =
     (case writeToken email token (clock w) (disk w) of (r, fs') \<Rightarrow>
        (let w1 = w\<lparr>disk := fs'\<rparr>;
             w2 = (case r of
                     Inl error \<Rightarrow>
                       w1\<lparr>events := events w1 @ [Warn ''Failed to persist Money Lover token:'' error]\<rparr>
                   | Inr u \<Rightarrow> w1)
         in w2\<lparr>cachedEnvToken := token, cacheLoaded := True, envTokenPromise := None,
               exchanges := (exchanges w2)[p := Fulfilled token]\<rparr>))"

subsection \<open>Interleavings\<close>

text \<open>
  One action is what runs between two suspensions: a call of \<open>fetchEnvToken\<close> up to its
  first \<open>await\<close>, the resumption of a suspended invocation or handler, or a change of the
  configuration. An operation of the Token Store takes effect when its caller is
  resumed. An action that does not apply leaves the state as it is.
\<close>

datatype action =
    Call bool
  | RemoveDone nat
  | ReadDone nat
  | ExchangeDone nat
  | WriteDone nat
  | SetEnv "string \<rightharpoonup> string"

definition resume :: "nat \<Rightarrow> call_state \<times> world \<Rightarrow> world" where
  "resume i r = (case r of (st, w') \<Rightarrow> w'\<lparr>calls := (calls w')[i := st]\<rparr>)"

fun step :: "world \<Rightarrow> action \<Rightarrow> world" where
  "step w (Call forceRefresh) =
     (case fetchEnvToken_enter forceRefresh w of (st, w') \<Rightarrow> w'\<lparr>calls := calls w' @ [st]\<rparr>)"
| "step w (RemoveDone i) =
     (if i < length (calls w)
      then (case calls w ! i of
              AwaitRemove email password \<Rightarrow> resume i (after_removeToken email password w)
            | _ \<Rightarrow> w)
      else w)"
| "step w (ReadDone i) =
     (if i < length (calls w)
      then (case calls w ! i of
              AwaitRead email password \<Rightarrow> resume i (after_readToken email password w)
            | _ \<Rightarrow> w)
      else w)"
| "step w (ExchangeDone p) =
     (if p < length (exchanges w)
      then (case exchanges w ! p of
              Exchanging email password \<Rightarrow> getToken_settled p email password w
            | _ \<Rightarrow> w)
      else w)"
| "step w (WriteDone p) =
     (if p < length (exchanges w)
      then (case exchanges w ! p of
              Persisting email token \<Rightarrow> after_writeToken p email token w
            | _ \<Rightarrow> w)
      else w)"
| "step w (SetEnv env) = w\<lparr>process_env := env\<rparr>"

definition run :: "world \<Rightarrow> action list \<Rightarrow> world" where
  "run w acts = foldl step w acts"

text \<open>What the promise of invocation \<open>i\<close> is settled with, if it is settled.\<close>

definition call_result :: "world \<Rightarrow> nat \<Rightarrow> (js_error + string option) option" where
  "call_result w i =
     (if i < length (calls w)
      then (case calls w ! i of
              Returned r \<Rightarrow> Some (Inr r)
            | AwaitPromise p \<Rightarrow>
                (if p < length (exchanges w)
                 then (case exchanges w ! p of
                         Fulfilled token \<Rightarrow> Some (Inr (Some token))
                       | Rejected error \<Rightarrow> Some (Inl error)
                       | _ \<Rightarrow> None)
                 else None)
            | _ \<Rightarrow> None)
      else None)"


subsection \<open>\<open>fetchEnvToken\<close> awaited\<close>

text \<open>
  \<open>await fetchEnvToken(forceRefresh)\<close> with nothing else running in between: the call,
  then each resumption of this invocation and of the exchange it waits for. The result
  is \<open>None\<close> if the promise is never settled.
\<close>

definition fetchEnvToken :: "bool \<Rightarrow> world \<Rightarrow> (js_error + string option) option \<times> world" where
  "fetchEnvToken forceRefresh w =
     (let i = length (calls w);
          w3 = run w [Call forceRefresh, RemoveDone i, ReadDone i];
          w5 = (case calls w3 ! i of
                  AwaitPromise p \<Rightarrow> run w3 [ExchangeDone p, WriteDone p]
                | _ \<Rightarrow> w3)
      in (call_result w5 i, w5))"

subsection \<open>\<open>runWithResolvedToken\<close>\<close>

definition missingTokenError :: js_error where
  "missingTokenError = Error ''Token is required. Provide a token parameter or set EMAIL/PASSWORD, MONEYLOVER_TOKEN, or a .env file for automatic authentication.''"

text \<open>
  The operation \<open>fn\<close> is outside the program: \<open>fn n token\<close> is the outcome of its
  \<open>n\<close>-th invocation within this run when given \<open>token\<close>. Each invocation is recorded.
\<close>

definition invoke :: "(nat \<Rightarrow> string \<Rightarrow> js_error + 'a) \<Rightarrow> nat \<Rightarrow> string \<Rightarrow> world \<Rightarrow> (js_error + 'a) \<times> world" where
  "invoke fn n token w = (fn n token, w\<lparr>events := events w @ [Operation token]\<rparr>)"

text \<open>Lines 257 to 268: the \<open>try\<close> block and its handler.\<close>

definition run_operation :: "bool \<Rightarrow> string \<Rightarrow> (nat \<Rightarrow> string \<Rightarrow> js_error + 'a) \<Rightarrow> world \<Rightarrow>
    (js_error + 'a) option \<times> world" where
  "run_operation usedEnvToken token fn w =
     (case invoke fn 0 token w of
        (Inr result, w1) \<Rightarrow> (Some (Inr result), w1)
      | (Inl error, w1) \<Rightarrow>
          if usedEnvToken \<and> isAuthError error then
            (case fetchEnvToken True w1 of
               (None, w2) \<Rightarrow> (None, w2)
             | (Some (Inl refreshError), w2) \<Rightarrow> (Some (Inl refreshError), w2)
             | (Some (Inr refreshedToken), w2) \<Rightarrow>
                 (case refreshedToken of
                    None \<Rightarrow> (Some (Inl error), w2)
                  | Some t \<Rightarrow>
                      if t = [] then (Some (Inl error), w2)
                      else (case invoke fn 1 t w2 of (r, w3) \<Rightarrow> (Some r, w3))))
          else (Some (Inl error), w1))"

text \<open>Lines 250 to 254: no token was provided, so one is fetched.\<close>

definition resolve_from_env :: "(nat \<Rightarrow> string \<Rightarrow> js_error + 'a) \<Rightarrow> world \<Rightarrow>
    (js_error + 'a) option \<times> world" where
  "resolve_from_env fn w =
     (case fetchEnvToken False w of
        (None, w1) \<Rightarrow> (None, w1)
      | (Some (Inl e), w1) \<Rightarrow> (Some (Inl e), w1)
      | (Some (Inr None), w1) \<Rightarrow> (Some (Inl missingTokenError), w1)
      | (Some (Inr (Some t)), w1) \<Rightarrow>
          if t = [] then (Some (Inl missingTokenError), w1)
          else run_operation True t fn w1)"

text \<open>\<open>providedToken\<close> is a string or \<open>undefined\<close>; \<open>!token\<close> holds for \<open>undefined\<close> and \<open>''\<close>.\<close>

definition runWithResolvedToken :: "string option \<Rightarrow> (nat \<Rightarrow> string \<Rightarrow> js_error + 'a) \<Rightarrow> world \<Rightarrow>
    (js_error + 'a) option \<times> world" where
  "runWithResolvedToken providedToken fn w =
     (case providedToken of
        None \<Rightarrow> resolve_from_env fn w
      | Some token \<Rightarrow>
          if token = [] then resolve_from_env fn w
          else run_operation False token fn w)"

subsection \<open>Tools\<close>

text \<open>\<open>ensureString\<close> of \<open>moneyloverClient.js\<close>, for a string.\<close>

definition ensureString :: "string \<Rightarrow> string \<Rightarrow> js_error + string" where
  "ensureString v name = (if trim v = [] then Inl (Error (name @ '' is required'')) else Inr (trim v))"

text \<open>
  \<open>withClient\<close>: the constructor of the client checks and trims the token; the operation
  then runs with the client, that is, with the client's token.
\<close>

definition withClient :: "string \<Rightarrow> (string \<Rightarrow> js_error + 'a) \<Rightarrow> js_error + 'a" where
  "withClient token fn =
     (case ensureString token ''token'' of Inl e \<Rightarrow> Inl e | Inr client_token \<Rightarrow> fn client_token)"

definition runWithClient :: "string option \<Rightarrow> (nat \<Rightarrow> string \<Rightarrow> js_error + 'a) \<Rightarrow> world \<Rightarrow>
    (js_error + 'a) option \<times> world" where
  "runWithClient token fn w =
     runWithResolvedToken token (\<lambda>n resolvedToken. withClient resolvedToken (fn n)) w"

text \<open>
  The \<open>token\<close> argument of a tool as the client sends it, and \<open>tokenSchema\<close>: a string
  is trimmed and becomes \<open>undefined\<close> when nothing is left; the result must be a string
  of at least one character or \<open>undefined\<close>.
\<close>

datatype token_argument = Undefined | Str string | NotAString

definition tokenSchema :: "token_argument \<Rightarrow> js_error + string option" where
  "tokenSchema v =
     (let preprocessed =
            (case v of
               Str s \<Rightarrow> (let trimmed = trim s in if trimmed = [] then Undefined else Str trimmed)
             | other \<Rightarrow> other)
      in case preprocessed of
           Undefined \<Rightarrow> Inr None
         | Str s \<Rightarrow> if 1 \<le> length s then Inr (Some s) else Inl (Error ''String must contain at least 1 character(s)'')
         | NotAString \<Rightarrow> Inl (Error ''Expected string''))"

text \<open>
  A tool such as \<open>get_user_info\<close>: the protocol layer parses the argument with the
  schema, and the handler passes the parsed token to \<open>runWithClient\<close>.
\<close>

definition call_tool :: "token_argument \<Rightarrow> (nat \<Rightarrow> string \<Rightarrow> js_error + 'a) \<Rightarrow> world \<Rightarrow>
    (js_error + 'a) option \<times> world" where
  "call_tool arg fn w =
     (case tokenSchema arg of
        Inl e \<Rightarrow> (Some (Inl e), w)
      | Inr token \<Rightarrow> runWithClient token fn w)"

section \<open>Notions for stating properties\<close>

text \<open>The warning logged for a failed best-effort operation, if it failed.\<close>

definition warning :: "string \<Rightarrow> js_error + 'a \<Rightarrow> event list" where
  "warning text r = (case r of Inl error \<Rightarrow> [Warn text error] | Inr v \<Rightarrow> [])"

text \<open>The token a read of the store yields, or the empty string when it yields none.\<close>

definition stored_token :: "js_error + string option \<Rightarrow> string" where
  "stored_token r = (case r of Inr (Some t) \<Rightarrow> t | _ \<Rightarrow> [])"

text \<open>
  The in-memory cache does not answer a call for \<open>email\<close>: it is invalidated on entry
  (a direct token was in use, or the identity differs), or it is empty, unloaded and no
  exchange is pending.
\<close>

definition unloaded :: "string \<Rightarrow> world \<Rightarrow> bool" where
  "unloaded email w =
     (cachedEnvUsesDirectToken w \<or> email \<noteq> cachedEnvEmail w \<or>
      (\<not> cacheLoaded w \<and> cachedEnvToken w = [] \<and> envTokenPromise w = None))"

text \<open> The tokens with which the operation was invoked, in order.\<close>

definition operations :: "event list \<Rightarrow> string list" where
  "operations es = concat (map (\<lambda>e. case e of Operation t \<Rightarrow> [t] | _ \<Rightarrow> []) es)"




section \<open>Example states\<close>

definition demo_fs :: filesystem where
  "demo_fs = \<lparr>homedir = ''/home/u'', files = Map.empty, refused = Map.empty\<rparr>"

definition demo_auth :: "nat \<Rightarrow> string \<Rightarrow> string \<Rightarrow> js_error + string" where
  "demo_auth n email password = Inr (''token-of-'' @ email)"



definition ident_env :: "string \<rightharpoonup> string" where
  "ident_env = [''EMAIL'' \<mapsto> ''a@x.io'', ''PASSWORD'' \<mapsto> ''pw'']"

definition stale_fs :: filesystem where
  "stale_fs = \<lparr>homedir = ''/home/u'',
               files = [getTokenPath demo_fs ''a@x.io'' \<mapsto> Json (JObject [(''token'', JString ''stale'')])],
               refused = Map.empty\<rparr>"

definition stale_world :: world where
  "stale_world = start ident_env stale_fs ''now'' demo_auth"

definition corrupt_fs :: filesystem where
  "corrupt_fs = \<lparr>homedir = ''/home/u'',
                 files = [getTokenPath demo_fs ''a@x.io'' \<mapsto> Malformed],
                 refused = [Chmod (getTokenPath demo_fs ''a@x.io'') \<mapsto> ''EPERM'']\<rparr>"

definition corrupt_world :: world where
  "corrupt_world = start ident_env corrupt_fs ''now'' demo_auth"

definition expired_op :: "nat \<Rightarrow> string \<Rightarrow> js_error + string" where
  "expired_op n token =
     (if n = 0 then Inl (MoneyloverApiError ''user_unauthenticated'' (CodeNumber 1)) else Inr token)"

definition reject_auth :: "nat \<Rightarrow> string \<Rightarrow> string \<Rightarrow> js_error + string" where
  "reject_auth n email password = Inl (Error ''Failed to retrieve access token: HTTP 401'')"

definition reject_world :: world where
  "reject_world = start ident_env stale_fs ''now'' reject_auth"

definition other_env :: "string \<rightharpoonup> string" where
  "other_env = [''EMAIL'' \<mapsto> ''b@x.io'', ''PASSWORD'' \<mapsto> ''pw'']"

definition empty_world :: world where
  "empty_world = start ident_env demo_fs ''now'' demo_auth"

text \<open>
  An operation that answers with the token it is given; an authenticator that grants the
  first exchange and refuses every later one, and the state that starts with it, an empty
  store, identity and secret configured; a state with nothing configured.
\<close>

definition echo_op :: "nat \<Rightarrow> string \<Rightarrow> js_error + string" where
  "echo_op n token = Inr token"

definition flaky_auth :: "nat \<Rightarrow> string \<Rightarrow> string \<Rightarrow> js_error + string" where
  "flaky_auth n email password =
     (if n = 0 then Inr ''t0'' else Inl (Error ''Failed to retrieve access token: HTTP 401''))"

definition flaky_world :: world where
  "flaky_world = start ident_env demo_fs ''now'' flaky_auth"

definition bare_world :: world where
  "bare_world = start Map.empty demo_fs ''now'' demo_auth"

section \<open>Classification of authentication failures\<close>

lemma starts_with_iff: "starts_with hay needle \<longleftrightarrow> (\<exists>ss. hay = needle @ ss)"
  by (induction hay needle rule: starts_with.induct) auto

lemma includes_iff: "js_includes hay needle \<longleftrightarrow> sublist needle hay"
proof (induction hay)
  case Nil
  then show ?case by (auto simp: sublist_def)
next
  case (Cons h hs)
  have "sublist needle (h # hs) \<longleftrightarrow> prefix needle (h # hs) \<or> sublist needle hs"
    by (rule sublist_Cons_right)
  moreover have "starts_with (h # hs) needle \<longleftrightarrow> prefix needle (h # hs)"
    by (simp only: starts_with_iff prefix_def)
  ultimately show ?case using Cons.IH by simp
qed

text \<open>
  Claim C5. An error is classified as an authentication failure exactly when it is an
  instance of the API error class and either its code is the number 1 or 401, or its
  lower-cased message has \<open>unauth\<close> or \<open>token\<close> as a contiguous substring. An error that
  is not an instance of the API error class (a transport failure, a validation error) is
  never classified so, whatever its code and message.
\<close>

theorem isAuthError_characterisation:
  "(isAuthError e \<longleftrightarrow>
      is_api_error e \<and>
      (code e = CodeNumber 1 \<or> code e = CodeNumber 401 \<or>
       sublist ''unauth'' (toLowerCase (message e)) \<or>
       sublist ''token'' (toLowerCase (message e))))
   \<and> isAuthError (JsError False m c) = False"
  by (cases "code e") (auto simp: isAuthError_def includes_iff Let_def)

section \<open>The Token Store: round trip\<close>

text \<open>
  Claim C7. For a non-empty identity \<open>X\<close> and a non-empty token \<open>T\<close>: when \<open>writeToken\<close>
  returns normally and the operating system does not refuse to read the file, reading
  for \<open>X\<close> afterwards yields exactly \<open>T\<close>. For an identity \<open>Y\<close> with no record (no file at
  its path, and the read not refused for another reason), reading yields \<open>null\<close> and
  raises nothing.
\<close>

theorem token_store_round_trip:
  "(X \<noteq> [] \<and> T \<noteq> [] \<and> fst (writeToken X T now fs) = Inr () \<and>
      refused fs (ReadFile (getTokenPath fs X)) = None
      \<longrightarrow> readToken X (snd (writeToken X T now fs)) = Inr (Some T))
   \<and> (files fs (getTokenPath fs Y) = None \<and> refused fs (ReadFile (getTokenPath fs Y)) = None
      \<longrightarrow> readToken Y fs = Inr None)"
proof (intro conjI impI)
  assume a: "X \<noteq> [] \<and> T \<noteq> [] \<and> fst (writeToken X T now fs) = Inr () \<and>
      refused fs (ReadFile (getTokenPath fs X)) = None"
  let ?p = "getTokenPath fs X"
  from a have nr: "refused fs (WriteFile ?p) = None"
    by (auto simp: writeToken_def fs_writeFile_def Let_def split: sum.splits option.splits prod.splits if_splits)
  from a nr have fs': "snd (writeToken X T now fs) =
      fs\<lparr>files := (files fs)(?p \<mapsto> JSON_stringify (JObject [(''token'', JString T), (''updatedAt'', JString now)]))\<rparr>"
    by (auto simp: writeToken_def fs_writeFile_def Let_def split: sum.splits option.splits prod.splits if_splits)
  show "readToken X (snd (writeToken X T now fs)) = Inr (Some T)"
    using a unfolding fs'
    by (simp add: readToken_def fs_readFile_def getTokenPath_def CACHE_DIR_def JSON_parse_def JSON_stringify_def)
next
  assume "files fs (getTokenPath fs Y) = None \<and> refused fs (ReadFile (getTokenPath fs Y)) = None"
  then show "readToken Y fs = Inr None"
    by (simp add: readToken_def fs_readFile_def fs_error_def)
qed

theorem token_store_round_trip_witness:
  "readToken ''user@example.com'' (snd (writeToken ''user@example.com'' ''jwt'' ''2024-01-01T00:00:00.000Z'' demo_fs)) = Inr (Some ''jwt'')
   \<and> readToken ''other@example.com'' demo_fs = Inr None"
  using token_store_round_trip [of "''user@example.com''" "''jwt''" "''2024-01-01T00:00:00.000Z''" demo_fs "''other@example.com''"]
  by (simp add: demo_fs_def writeToken_def ensureCacheDir_def fs_mkdir_def fs_writeFile_def fs_chmod_def Let_def)

section \<open>Invocations and their suspensions\<close>

lemma calls_resolve [simp]: "calls (snd (fetchEnvToken_resolve e p w)) = calls w"
  by (simp add: fetchEnvToken_resolve_def Let_def split: option.splits)

lemma calls_load [simp]: "calls (snd (fetchEnvToken_load e p w)) = calls w"
  by (simp add: fetchEnvToken_load_def)

lemma calls_enter [simp]: "calls (snd (fetchEnvToken_enter f w)) = calls w"
  by (simp add: fetchEnvToken_enter_def Let_def split: prod.splits)

lemma calls_after_remove [simp]: "calls (snd (after_removeToken e p w)) = calls w"
  by (simp add: after_removeToken_def Let_def split: prod.splits sum.splits)


lemma step_Call:
  "step w (Call f) = (snd (fetchEnvToken_enter f w))\<lparr>calls := calls w @ [fst (fetchEnvToken_enter f w)]\<rparr>"
  by (cases "fetchEnvToken_enter f w") (use calls_enter [of f w] in simp)

lemma step_RemoveDone_other:
  "i < length (calls w) \<Longrightarrow> (\<And>e p. calls w ! i \<noteq> AwaitRemove e p) \<Longrightarrow> step w (RemoveDone i) = w"
  by (cases "calls w ! i") auto

lemma step_ReadDone_other:
  "i < length (calls w) \<Longrightarrow> (\<And>e p. calls w ! i \<noteq> AwaitRead e p) \<Longrightarrow> step w (ReadDone i) = w"
  by (cases "calls w ! i") auto

declare step.simps [simp del]

section \<open>A direct token\<close>



lemma fetch_returned:
  assumes "fst (fetchEnvToken_enter forceRefresh w) = Returned r"
  shows "fetchEnvToken forceRefresh w = (Some (Inr r), step w (Call forceRefresh))"
proof -
  let ?i = "length (calls w)"
  let ?w1 = "step w (Call forceRefresh)"
  have c: "calls ?w1 = calls w @ [Returned r]" using assms by (simp add: step_Call)
  then have n: "calls ?w1 ! ?i = Returned r" by simp
  have l: "?i < length (calls ?w1)" using c by simp
  have "step ?w1 (RemoveDone ?i) = ?w1" using n l by (intro step_RemoveDone_other) auto
  moreover have "step ?w1 (ReadDone ?i) = ?w1" using n l by (intro step_ReadDone_other) auto
  ultimately show ?thesis
    using n l by (simp add: fetchEnvToken_def run_def Let_def call_result_def)
qed





section \<open>One invocation, step by step\<close>

lemma step_RemoveDone:
  "i < length (calls w) \<Longrightarrow> calls w ! i = AwaitRemove e p \<Longrightarrow>
   step w (RemoveDone i) = resume i (after_removeToken e p w)"
  by (simp add: step.simps)

lemma step_ReadDone:
  "i < length (calls w) \<Longrightarrow> calls w ! i = AwaitRead e p \<Longrightarrow>
   step w (ReadDone i) = resume i (after_readToken e p w)"
  by (simp add: step.simps)

lemma step_ExchangeDone:
  "p < length (exchanges w) \<Longrightarrow> exchanges w ! p = Exchanging e pw \<Longrightarrow>
   step w (ExchangeDone p) = getToken_settled p e pw w"
  by (simp add: step.simps)

lemma step_WriteDone:
  "p < length (exchanges w) \<Longrightarrow> exchanges w ! p = Persisting e t \<Longrightarrow>
   step w (WriteDone p) = after_writeToken p e t w"
  by (simp add: step.simps)

lemma step_WriteDone_other:
  "p < length (exchanges w) \<Longrightarrow> (\<And>e t. exchanges w ! p \<noteq> Persisting e t) \<Longrightarrow> step w (WriteDone p) = w"
  by (cases "exchanges w ! p") (auto simp: step.simps)

lemma run_Nil [simp]: "run w [] = w" by (simp add: run_def)
lemma run_Cons [simp]: "run w (a # acts) = run (step w a) acts" by (simp add: run_def)

text \<open>The three ways \<open>fetchEnvToken_resolve\<close> ends: the cached token, a new exchange, the pending one.\<close>

lemma resolve_cached:
  "cachedEnvToken w \<noteq> [] \<Longrightarrow> fetchEnvToken_resolve e pw w = (Returned (Some (cachedEnvToken w)), w)"
  by (simp add: fetchEnvToken_resolve_def)

lemma resolve_start:
  "cachedEnvToken w = [] \<Longrightarrow> envTokenPromise w = None \<Longrightarrow>
   fetchEnvToken_resolve e pw w =
     (AwaitPromise (length (exchanges w)),
      w\<lparr>exchanges := exchanges w @ [Exchanging e pw], envTokenPromise := Some (length (exchanges w)),
        events := events w @ [GetTokenCall e pw]\<rparr>)"
  by (simp add: fetchEnvToken_resolve_def Let_def)

lemma resolve_join:
  "cachedEnvToken w = [] \<Longrightarrow> envTokenPromise w = Some p \<Longrightarrow>
   fetchEnvToken_resolve e pw w = (AwaitPromise p, w)"
  by (simp add: fetchEnvToken_resolve_def)

text \<open>A forced call from its entry to the start of the exchange.\<close>

lemma enter_forced:
  assumes "getEnvConfig (process_env w) = (email, password, [])" "email \<noteq> []" "password \<noteq> []"
  shows "\<exists>w'. fetchEnvToken_enter True w = (AwaitRemove email password, w') \<and>
     cachedEnvToken w' = [] \<and> envTokenPromise w' = None \<and> \<not> cacheLoaded w' \<and>
     cachedEnvEmail w' = email \<and> \<not> cachedEnvUsesDirectToken w' \<and>
     events w' = events w @ [RemoveTokenCall email] \<and>
     disk w' = disk w \<and> exchanges w' = exchanges w \<and> calls w' = calls w \<and>
     process_env w' = process_env w \<and> authenticator w' = authenticator w \<and> clock w' = clock w"
  using assms by (simp add: fetchEnvToken_enter_def Let_def)

lemma after_remove_unloaded:
  assumes "\<not> cacheLoaded w"
  shows "after_removeToken email password w =
     (AwaitRead email password,
      w\<lparr>disk := snd (removeToken email (disk w)),
        events := events w @ warning ''Failed to clear cached Money Lover token:'' (fst (removeToken email (disk w)))
                  @ [ReadTokenCall email]\<rparr>)"
  using assms
  by (cases "removeToken email (disk w)")
     (auto simp: after_removeToken_def fetchEnvToken_load_def Let_def warning_def split: sum.splits)

lemma after_read:
  "after_readToken email password w =
     fetchEnvToken_resolve email password
       (w\<lparr>cachedEnvToken := (if stored_token (readToken email (disk w)) \<noteq> [] then stored_token (readToken email (disk w)) else cachedEnvToken w),
          events := events w @ warning ''Failed to read cached Money Lover token:'' (readToken email (disk w)),
          cacheLoaded := True\<rparr>)"
  by (auto simp: after_readToken_def Let_def warning_def stored_token_def split: sum.splits option.splits)

lemma resume_eq: "resume i (st, w') = w'\<lparr>calls := (calls w')[i := st]\<rparr>"
  by (simp add: resume_def)

lemma forced_fetch_prefix:
  assumes cfg: "getEnvConfig (process_env w) = (email, password, [])" "email \<noteq> []" "password \<noteq> []"
  defines "fs1 \<equiv> snd (removeToken email (disk w))"
  defines "st \<equiv> stored_token (readToken email fs1)"
  defines "w3 \<equiv> run w [Call True, RemoveDone (length (calls w)), ReadDone (length (calls w))]"
  shows "events w3 = events w @ [RemoveTokenCall email]
            @ warning ''Failed to clear cached Money Lover token:'' (fst (removeToken email (disk w)))
            @ [ReadTokenCall email]
            @ warning ''Failed to read cached Money Lover token:'' (readToken email fs1)
            @ (if st \<noteq> [] then [] else [GetTokenCall email password])"
    and "disk w3 = fs1"
    and "cachedEnvToken w3 = st"
    and "cacheLoaded w3"
    and "cachedEnvEmail w3 = email"
    and "process_env w3 = process_env w" "authenticator w3 = authenticator w" "clock w3 = clock w"
    and "length (calls w3) = Suc (length (calls w))"
    and "calls w3 ! length (calls w) =
           (if st \<noteq> [] then Returned (Some st) else AwaitPromise (length (exchanges w)))"
    and "exchanges w3 = (if st \<noteq> [] then exchanges w else exchanges w @ [Exchanging email password])"
    and "envTokenPromise w3 = (if st \<noteq> [] then None else Some (length (exchanges w)))"
proof -
  let ?i = "length (calls w)"
  obtain W0 where e: "fetchEnvToken_enter True w = (AwaitRemove email password, W0)"
    and W0: "cachedEnvToken W0 = []" "envTokenPromise W0 = None" "\<not> cacheLoaded W0"
      "cachedEnvEmail W0 = email" "events W0 = events w @ [RemoveTokenCall email]"
      "disk W0 = disk w" "exchanges W0 = exchanges w" "calls W0 = calls w"
      "process_env W0 = process_env w" "authenticator W0 = authenticator w" "clock W0 = clock w"
    using enter_forced [OF cfg] by blast
  define w1 where "w1 = step w (Call True)"
  have w1: "w1 = W0\<lparr>calls := calls w @ [AwaitRemove email password]\<rparr>"
    by (simp add: w1_def step_Call e)
  have c1: "?i < length (calls w1)" "calls w1 ! ?i = AwaitRemove email password"
    by (simp_all add: w1)
  define w2 where "w2 = step w1 (RemoveDone ?i)"
  have l1: "\<not> cacheLoaded w1" by (simp add: w1 W0)
  have w2: "w2 = w1\<lparr>disk := fs1,
        events := events w1 @ warning ''Failed to clear cached Money Lover token:'' (fst (removeToken email (disk w)))
                  @ [ReadTokenCall email],
        calls := (calls w1)[?i := AwaitRead email password]\<rparr>"
    unfolding w2_def step_RemoveDone [OF c1] after_remove_unloaded [OF l1] resume_eq
    by (simp add: w1 W0 fs1_def)
  have c2: "?i < length (calls w2)" "calls w2 ! ?i = AwaitRead email password"
    by (simp_all add: w2 w1)
  have w3': "w3 = step w2 (ReadDone ?i)"
    by (simp add: w3_def w2_def w1_def)
  define w2' where "w2' = w2\<lparr>cachedEnvToken := (if st \<noteq> [] then st else cachedEnvToken w2),
          events := events w2 @ warning ''Failed to read cached Money Lover token:'' (readToken email fs1),
          cacheLoaded := True\<rparr>"
  have w3: "w3 = resume ?i (fetchEnvToken_resolve email password w2')"
    unfolding w3' step_ReadDone [OF c2] after_read w2'_def
    by (simp add: w2 st_def)
  have f2: "cachedEnvToken w2' = st" "envTokenPromise w2' = None" "calls w2' = calls w2"
    "exchanges w2' = exchanges w" "disk w2' = fs1" "cachedEnvEmail w2' = email"
    "process_env w2' = process_env w" "authenticator w2' = authenticator w" "clock w2' = clock w"
    "cacheLoaded w2'"
    "events w2' = events w @ [RemoveTokenCall email]
            @ warning ''Failed to clear cached Money Lover token:'' (fst (removeToken email (disk w)))
            @ [ReadTokenCall email]
            @ warning ''Failed to read cached Money Lover token:'' (readToken email fs1)"
    by (simp_all add: w2'_def w2 w1 W0)
  show "events w3 = events w @ [RemoveTokenCall email]
            @ warning ''Failed to clear cached Money Lover token:'' (fst (removeToken email (disk w)))
            @ [ReadTokenCall email]
            @ warning ''Failed to read cached Money Lover token:'' (readToken email fs1)
            @ (if st \<noteq> [] then [] else [GetTokenCall email password])"
    and "disk w3 = fs1"
    and "cachedEnvToken w3 = st"
    and "cacheLoaded w3"
    and "cachedEnvEmail w3 = email"
    and "process_env w3 = process_env w" "authenticator w3 = authenticator w" "clock w3 = clock w"
    and "length (calls w3) = Suc (length (calls w))"
    and "calls w3 ! length (calls w) =
           (if st \<noteq> [] then Returned (Some st) else AwaitPromise (length (exchanges w)))"
    and "exchanges w3 = (if st \<noteq> [] then exchanges w else exchanges w @ [Exchanging email password])"
    and "envTokenPromise w3 = (if st \<noteq> [] then None else Some (length (exchanges w)))"
    by (cases "st = []"; simp add: w3 resume_eq resolve_cached resolve_start f2 w2 w1)+
qed

lemma settle_exchange:
  assumes p: "p < length (exchanges w)" "exchanges w ! p = Exchanging email password"
  defines "answer \<equiv> getToken (authenticator w p email password)"
  defines "w5 \<equiv> run w [ExchangeDone p, WriteDone p]"
  shows "exchanges w5 = (exchanges w)[p := (case answer of Inr token \<Rightarrow> Fulfilled token | Inl e \<Rightarrow> Rejected e)]"
    and "events w5 = events w @
           (case answer of
              Inr token \<Rightarrow> WriteTokenCall email token #
                 warning ''Failed to persist Money Lover token:'' (fst (writeToken email token (clock w) (disk w)))
            | Inl e \<Rightarrow> [])"
    and "disk w5 = (case answer of Inr token \<Rightarrow> snd (writeToken email token (clock w) (disk w)) | Inl e \<Rightarrow> disk w)"
    and "cachedEnvToken w5 = (case answer of Inr token \<Rightarrow> token | Inl e \<Rightarrow> cachedEnvToken w)"
    and "cacheLoaded w5 = (case answer of Inr token \<Rightarrow> True | Inl e \<Rightarrow> cacheLoaded w)"
    and "envTokenPromise w5 = None"
    and "calls w5 = calls w" "process_env w5 = process_env w" "authenticator w5 = authenticator w"
    and "cachedEnvEmail w5 = cachedEnvEmail w" "clock w5 = clock w"
    and "cachedEnvUsesDirectToken w5 = cachedEnvUsesDirectToken w"
proof -
  define w4 where "w4 = step w (ExchangeDone p)"
  have w4: "w4 = getToken_settled p email password w"
    by (simp add: w4_def step_ExchangeDone [OF p])
  have w5: "w5 = step w4 (WriteDone p)" by (simp add: w5_def w4_def)
  have w5eq: "w5 = (case answer of
       Inl e \<Rightarrow> w\<lparr>envTokenPromise := None, exchanges := (exchanges w)[p := Rejected e]\<rparr>
     | Inr token \<Rightarrow> after_writeToken p email token
         (w\<lparr>exchanges := (exchanges w)[p := Persisting email token],
            events := events w @ [WriteTokenCall email token]\<rparr>))"
  proof (cases answer)
    case (Inl e)
    then have a: "getToken (authenticator w p email password) = Inl e" by (simp add: answer_def)
    have w4': "w4 = w\<lparr>envTokenPromise := None, exchanges := (exchanges w)[p := Rejected e]\<rparr>"
      by (simp add: w4 getToken_settled_def a)
    have "step w4 (WriteDone p) = w4"
      by (rule step_WriteDone_other) (use p in \<open>simp_all add: w4'\<close>)
    then show ?thesis using Inl by (simp add: w5 w4')
  next
    case (Inr token)
    then have a: "getToken (authenticator w p email password) = Inr token" by (simp add: answer_def)
    have w4': "w4 = w\<lparr>exchanges := (exchanges w)[p := Persisting email token],
            events := events w @ [WriteTokenCall email token]\<rparr>"
      by (simp add: w4 getToken_settled_def a)
    have "step w4 (WriteDone p) = after_writeToken p email token w4"
      by (rule step_WriteDone) (use p in \<open>simp_all add: w4'\<close>)
    then show ?thesis using Inr by (simp add: w5 w4')
  qed
  show "exchanges w5 = (exchanges w)[p := (case answer of Inr token \<Rightarrow> Fulfilled token | Inl e \<Rightarrow> Rejected e)]"
    and "events w5 = events w @
           (case answer of
              Inr token \<Rightarrow> WriteTokenCall email token #
                 warning ''Failed to persist Money Lover token:'' (fst (writeToken email token (clock w) (disk w)))
            | Inl e \<Rightarrow> [])"
    and "disk w5 = (case answer of Inr token \<Rightarrow> snd (writeToken email token (clock w) (disk w)) | Inl e \<Rightarrow> disk w)"
    and "cachedEnvToken w5 = (case answer of Inr token \<Rightarrow> token | Inl e \<Rightarrow> cachedEnvToken w)"
    and "cacheLoaded w5 = (case answer of Inr token \<Rightarrow> True | Inl e \<Rightarrow> cacheLoaded w)"
    and "envTokenPromise w5 = None"
    and "calls w5 = calls w" "process_env w5 = process_env w" "authenticator w5 = authenticator w"
    and "cachedEnvEmail w5 = cachedEnvEmail w" "clock w5 = clock w"
    and "cachedEnvUsesDirectToken w5 = cachedEnvUsesDirectToken w"
    by (cases answer; cases "writeToken email (projr answer) (clock w) (disk w)";
        auto simp: w5eq after_writeToken_def Let_def warning_def split: sum.splits)+
qed

section \<open>Forced refresh\<close>

lemma fetch_result:
  "fetchEnvToken f w =
     (let i = length (calls w); w3 = run w [Call f, RemoveDone i, ReadDone i]
      in case calls w3 ! i of
           AwaitPromise p \<Rightarrow> (call_result (run w3 [ExchangeDone p, WriteDone p]) i, run w3 [ExchangeDone p, WriteDone p])
         | _ \<Rightarrow> (call_result w3 i, w3))"
  by (simp add: fetchEnvToken_def Let_def split: call_state.splits)

lemma unlink_removes:
  "refused fs (Unlink (getTokenPath fs email)) = None \<Longrightarrow> email \<noteq> [] \<Longrightarrow>
   files (snd (removeToken email fs)) (getTokenPath fs email) = None"
  by (auto simp: removeToken_def fs_unlink_def split: option.splits)

text \<open>
  Claim C4. For a forced refresh with identity and secret resolved, run from any state:
  the first thing recorded is the call of \<open>removeToken\<close> for the resolved identity,
  and it has been carried out on the disk, and then \<open>readToken\<close>, before the
  authenticator is called (if it is called at all); when the operating system does
  not refuse the deletion, no record exists for the identity at that moment. After
  that, \<open>writeToken\<close> is called exactly when the exchange yields a token: on a
  failed exchange nothing is recorded and the disk stays as the deletion left it.
\<close>

theorem forced_refresh_deletes_before_exchange:
  assumes "getEnvConfig (process_env w) = (email, password, [])" and "email \<noteq> []" and "password \<noteq> []"
  shows "let removed = removeToken email (disk w);
             fs1 = snd removed;
             stored = readToken email fs1;
             answer = getToken (authenticator w (length (exchanges w)) email password);
             w3 = run w [Call True, RemoveDone (length (calls w)), ReadDone (length (calls w))];
             w' = snd (fetchEnvToken True w)
         in disk w3 = fs1 \<and>
            (refused (disk w) (Unlink (getTokenPath (disk w) email)) = None
               \<longrightarrow> files fs1 (getTokenPath (disk w) email) = None) \<and>
            events w3 = events w @ [RemoveTokenCall email]
               @ warning ''Failed to clear cached Money Lover token:'' (fst removed)
               @ [ReadTokenCall email]
               @ warning ''Failed to read cached Money Lover token:'' stored
               @ (if stored_token stored \<noteq> [] then [] else [GetTokenCall email password]) \<and>
            events w' = events w3 @
               (if stored_token stored \<noteq> [] then []
                else (case answer of
                        Inr token \<Rightarrow> WriteTokenCall email token #
                          warning ''Failed to persist Money Lover token:'' (fst (writeToken email token (clock w) fs1))
                      | Inl e \<Rightarrow> [])) \<and>
            disk w' = (if stored_token stored \<noteq> [] then fs1
                       else (case answer of
                               Inr token \<Rightarrow> snd (writeToken email token (clock w) fs1)
                             | Inl e \<Rightarrow> fs1)) \<and>
            fst (fetchEnvToken True w) =
               Some (if stored_token stored \<noteq> [] then Inr (Some (stored_token stored))
                     else (case answer of Inr token \<Rightarrow> Inr (Some token) | Inl e \<Rightarrow> Inl e))"
proof -
  let ?i = "length (calls w)"
  let ?p = "length (exchanges w)"
  define w3 where "w3 = run w [Call True, RemoveDone ?i, ReadDone ?i]"
  define st where "st = stored_token (readToken email (snd (removeToken email (disk w))))"
  note pre = forced_fetch_prefix [OF assms, folded w3_def st_def]
  have del: "refused (disk w) (Unlink (getTokenPath (disk w) email)) = None
               \<longrightarrow> files (snd (removeToken email (disk w))) (getTokenPath (disk w) email) = None"
    using unlink_removes assms(2) by blast
  show ?thesis
  proof (cases "st = []")
    case False
    then have c: "calls w3 ! ?i = Returned (Some st)" by (simp add: pre)
    have "fetchEnvToken True w = (Some (Inr (Some st)), w3)"
      using c pre(9) by (simp add: fetch_result w3_def [symmetric] Let_def call_result_def del: run_Cons)
    then show ?thesis
      using False del pre by (simp add: Let_def w3_def [symmetric] st_def [symmetric] del: run_Cons)
  next
    case True
    then have c: "calls w3 ! ?i = AwaitPromise ?p" by (simp add: pre)
    have x: "?p < length (exchanges w3)" "exchanges w3 ! ?p = Exchanging email password"
      using True by (simp_all add: pre)
    define w5 where "w5 = run w3 [ExchangeDone ?p, WriteDone ?p]"
    note post = settle_exchange [OF x, folded w5_def]
    have f: "fetchEnvToken True w = (call_result w5 ?i, w5)"
      using c by (simp add: fetch_result w3_def [symmetric] w5_def [symmetric] Let_def del: run_Cons)
    have r: "call_result w5 ?i = Some (case getToken (authenticator w ?p email password) of
                Inr token \<Rightarrow> Inr (Some token) | Inl e \<Rightarrow> Inl e)"
      using c pre(9) True
      by (simp add: call_result_def post pre split: sum.splits)
    show ?thesis
      using True del
      by (simp add: Let_def w3_def [symmetric] st_def [symmetric] f r post pre del: run_Cons cong: sum.case_cong)
  qed
qed

lemma trim_plain: "trim ''a@x.io'' = ''a@x.io''" "trim ''pw'' = ''pw''"
  by (simp_all add: trim_def whitespace_def)

lemma ident_env_config: "getEnvConfig ident_env = (''a@x.io'', ''pw'', [])"
  by (simp add: getEnvConfig_def ident_env_def DIRECT_TOKEN_ENV_KEYS_def trim_plain Let_def)

lemma stale_world_fields:
  "process_env stale_world = ident_env" "disk stale_world = stale_fs" "events stale_world = []"
  "exchanges stale_world = []" "calls stale_world = []" "authenticator stale_world = demo_auth"
  "clock stale_world = ''now''"
  by (simp_all add: stale_world_def start_def)

lemma stale_removed:
  "removeToken ''a@x.io'' stale_fs = (Inr (), demo_fs)"
  by (simp add: removeToken_def fs_unlink_def stale_fs_def demo_fs_def getTokenPath_def CACHE_DIR_def)

lemma demo_read: "readToken ''a@x.io'' demo_fs = Inr None"
  by (simp add: readToken_def fs_readFile_def demo_fs_def fs_error_def)

lemma demo_write: "fst (writeToken ''a@x.io'' t now demo_fs) = Inr ()"
  by (simp add: writeToken_def ensureCacheDir_def fs_mkdir_def fs_writeFile_def fs_chmod_def demo_fs_def Let_def)

theorem forced_refresh_deletes_before_exchange_witness:
  "getEnvConfig (process_env stale_world) = (''a@x.io'', ''pw'', [])
   \<and> files (disk stale_world) (getTokenPath (disk stale_world) ''a@x.io'') \<noteq> None
   \<and> events (snd (fetchEnvToken True stale_world)) =
       [RemoveTokenCall ''a@x.io'', ReadTokenCall ''a@x.io'', GetTokenCall ''a@x.io'' ''pw'',
        WriteTokenCall ''a@x.io'' ''token-of-a@x.io'']
   \<and> fst (fetchEnvToken True stale_world) = Some (Inr (Some ''token-of-a@x.io''))"
proof -
  have cfg: "getEnvConfig (process_env stale_world) = (''a@x.io'', ''pw'', [])"
    by (simp add: stale_world_fields ident_env_config)
  have f: "files (disk stale_world) (getTokenPath (disk stale_world) ''a@x.io'') \<noteq> None"
    by (simp add: stale_world_fields stale_fs_def demo_fs_def getTokenPath_def CACHE_DIR_def)
  from forced_refresh_deletes_before_exchange [OF cfg] cfg f show ?thesis
    by (simp add: Let_def stale_world_fields stale_removed demo_read demo_write warning_def
          stored_token_def demo_auth_def getToken_def del: run_Cons)
qed

section \<open>Reading the store\<close>

lemma enter_unloaded:
  assumes "getEnvConfig (process_env w) = (email, password, [])" "email \<noteq> []" "password \<noteq> []"
    and "unloaded email w"
  shows "\<exists>w'. fetchEnvToken_enter False w = (AwaitRead email password, w') \<and>
     cachedEnvToken w' = [] \<and> envTokenPromise w' = None \<and> \<not> cacheLoaded w' \<and>
     cachedEnvEmail w' = email \<and> \<not> cachedEnvUsesDirectToken w' \<and>
     events w' = events w @ [ReadTokenCall email] \<and>
     disk w' = disk w \<and> exchanges w' = exchanges w \<and> calls w' = calls w \<and>
     process_env w' = process_env w \<and> authenticator w' = authenticator w \<and> clock w' = clock w"
  using assms by (auto simp: fetchEnvToken_enter_def fetchEnvToken_load_def unloaded_def Let_def)

lemma read_done:
  assumes c: "i < length (calls w)" "calls w ! i = AwaitRead email password"
  defines "st \<equiv> stored_token (readToken email (disk w))"
  defines "tok \<equiv> (if st \<noteq> [] then st else cachedEnvToken w)"
  defines "w' \<equiv> step w (ReadDone i)"
  shows "cacheLoaded w'" "cachedEnvToken w' = tok" "disk w' = disk w"
    and "events w' = events w @ warning ''Failed to read cached Money Lover token:'' (readToken email (disk w))
           @ (if tok = [] \<and> envTokenPromise w = None then [GetTokenCall email password] else [])"
    and "length (calls w') = length (calls w)"
    and "calls w' ! i = (if tok \<noteq> [] then Returned (Some tok)
                         else (case envTokenPromise w of
                                 None \<Rightarrow> AwaitPromise (length (exchanges w))
                               | Some p \<Rightarrow> AwaitPromise p))"
    and "exchanges w' = (if tok = [] \<and> envTokenPromise w = None
                          then exchanges w @ [Exchanging email password] else exchanges w)"
    and "envTokenPromise w' = (if tok = [] \<and> envTokenPromise w = None
                                then Some (length (exchanges w)) else envTokenPromise w)"
    and "cachedEnvEmail w' = cachedEnvEmail w" "process_env w' = process_env w"
    and "authenticator w' = authenticator w" "clock w' = clock w"
    and "cachedEnvUsesDirectToken w' = cachedEnvUsesDirectToken w"
proof -
  define w2 where "w2 = w\<lparr>cachedEnvToken := tok,
          events := events w @ warning ''Failed to read cached Money Lover token:'' (readToken email (disk w)),
          cacheLoaded := True\<rparr>"
  have w': "w' = resume i (fetchEnvToken_resolve email password w2)"
    unfolding w'_def step_ReadDone [OF c] after_read w2_def tok_def st_def by simp
  have f: "cachedEnvToken w2 = tok" "envTokenPromise w2 = envTokenPromise w" "calls w2 = calls w"
    "exchanges w2 = exchanges w"
    by (simp_all add: w2_def)
  show "cacheLoaded w'" "cachedEnvToken w' = tok" "disk w' = disk w"
    and "events w' = events w @ warning ''Failed to read cached Money Lover token:'' (readToken email (disk w))
           @ (if tok = [] \<and> envTokenPromise w = None then [GetTokenCall email password] else [])"
    and "length (calls w') = length (calls w)"
    and "calls w' ! i = (if tok \<noteq> [] then Returned (Some tok)
                         else (case envTokenPromise w of
                                 None \<Rightarrow> AwaitPromise (length (exchanges w))
                               | Some p \<Rightarrow> AwaitPromise p))"
    and "exchanges w' = (if tok = [] \<and> envTokenPromise w = None
                          then exchanges w @ [Exchanging email password] else exchanges w)"
    and "envTokenPromise w' = (if tok = [] \<and> envTokenPromise w = None
                                then Some (length (exchanges w)) else envTokenPromise w)"
    and "cachedEnvEmail w' = cachedEnvEmail w" "process_env w' = process_env w"
    and "authenticator w' = authenticator w" "clock w' = clock w"
    and "cachedEnvUsesDirectToken w' = cachedEnvUsesDirectToken w"
    using c(1)
    by (cases "tok = []"; cases "envTokenPromise w";
        simp add: w' resume_eq resolve_cached resolve_start resolve_join f; simp add: w2_def)+
qed

lemma fetch_unloaded:
  assumes cfg: "getEnvConfig (process_env w) = (email, password, [])" "email \<noteq> []" "password \<noteq> []"
    and unl: "unloaded email w"
  defines "stored \<equiv> readToken email (disk w)"
  defines "answer \<equiv> getToken (authenticator w (length (exchanges w)) email password)"
  defines "w' \<equiv> snd (fetchEnvToken False w)"
  shows "fst (fetchEnvToken False w) =
           Some (if stored_token stored \<noteq> [] then Inr (Some (stored_token stored))
                 else (case answer of Inr token \<Rightarrow> Inr (Some token) | Inl e \<Rightarrow> Inl e))"
    and "events w' = events w @ [ReadTokenCall email]
           @ warning ''Failed to read cached Money Lover token:'' stored
           @ (if stored_token stored \<noteq> [] then []
              else GetTokenCall email password #
                (case answer of
                   Inr token \<Rightarrow> WriteTokenCall email token #
                     warning ''Failed to persist Money Lover token:'' (fst (writeToken email token (clock w) (disk w)))
                 | Inl e \<Rightarrow> []))"
    and "disk w' = (if stored_token stored \<noteq> [] then disk w
                    else (case answer of
                            Inr token \<Rightarrow> snd (writeToken email token (clock w) (disk w))
                          | Inl e \<Rightarrow> disk w))"
    and "cachedEnvToken w' = (if stored_token stored \<noteq> [] then stored_token stored
                              else (case answer of Inr token \<Rightarrow> token | Inl e \<Rightarrow> []))"
    and "cachedEnvEmail w' = email" "cacheLoaded w'" "envTokenPromise w' = None"
    and "\<not> cachedEnvUsesDirectToken w'"
    and "process_env w' = process_env w" "authenticator w' = authenticator w" "clock w' = clock w"
    and "exchanges w' = (if stored_token stored \<noteq> [] then exchanges w
                         else exchanges w @ [case answer of Inr token \<Rightarrow> Fulfilled token | Inl e \<Rightarrow> Rejected e])"
proof -
  let ?i = "length (calls w)"
  let ?p = "length (exchanges w)"
  obtain W0 where e: "fetchEnvToken_enter False w = (AwaitRead email password, W0)"
    and W0: "cachedEnvToken W0 = []" "envTokenPromise W0 = None" "\<not> cacheLoaded W0"
      "cachedEnvEmail W0 = email" "\<not> cachedEnvUsesDirectToken W0"
      "events W0 = events w @ [ReadTokenCall email]"
      "disk W0 = disk w" "exchanges W0 = exchanges w" "calls W0 = calls w"
      "process_env W0 = process_env w" "authenticator W0 = authenticator w" "clock W0 = clock w"
    using enter_unloaded [OF cfg unl] by blast
  define w1 where "w1 = step w (Call False)"
  have w1: "w1 = W0\<lparr>calls := calls w @ [AwaitRead email password]\<rparr>"
    by (simp add: w1_def step_Call e)
  have c1: "?i < length (calls w1)" "calls w1 ! ?i = AwaitRead email password"
    by (simp_all add: w1)
  have nr: "step w1 (RemoveDone ?i) = w1"
    by (rule step_RemoveDone_other) (simp_all add: c1)
  define w3 where "w3 = step w1 (ReadDone ?i)"
  have w3run: "run w [Call False, RemoveDone ?i, ReadDone ?i] = w3"
    by (simp add: w3_def w1_def [symmetric] nr)
  have f1: "disk w1 = disk w" "cachedEnvToken w1 = []" "envTokenPromise w1 = None"
    "events w1 = events w @ [ReadTokenCall email]" "exchanges w1 = exchanges w"
    "length (calls w1) = Suc ?i" "cachedEnvEmail w1 = email"
    "process_env w1 = process_env w" "authenticator w1 = authenticator w" "clock w1 = clock w"
    "\<not> cachedEnvUsesDirectToken w1"
    by (simp_all add: w1 W0)
  note rd = read_done [OF c1, folded w3_def, unfolded f1, folded stored_def]
  show "fst (fetchEnvToken False w) =
           Some (if stored_token stored \<noteq> [] then Inr (Some (stored_token stored))
                 else (case answer of Inr token \<Rightarrow> Inr (Some token) | Inl e \<Rightarrow> Inl e))"
    and "events w' = events w @ [ReadTokenCall email]
           @ warning ''Failed to read cached Money Lover token:'' stored
           @ (if stored_token stored \<noteq> [] then []
              else GetTokenCall email password #
                (case answer of
                   Inr token \<Rightarrow> WriteTokenCall email token #
                     warning ''Failed to persist Money Lover token:'' (fst (writeToken email token (clock w) (disk w)))
                 | Inl e \<Rightarrow> []))"
    and "disk w' = (if stored_token stored \<noteq> [] then disk w
                    else (case answer of
                            Inr token \<Rightarrow> snd (writeToken email token (clock w) (disk w))
                          | Inl e \<Rightarrow> disk w))"
    and "cachedEnvToken w' = (if stored_token stored \<noteq> [] then stored_token stored
                              else (case answer of Inr token \<Rightarrow> token | Inl e \<Rightarrow> []))"
    and "cachedEnvEmail w' = email" "cacheLoaded w'" "envTokenPromise w' = None"
    and "\<not> cachedEnvUsesDirectToken w'"
    and "process_env w' = process_env w" "authenticator w' = authenticator w" "clock w' = clock w"
    and "exchanges w' = (if stored_token stored \<noteq> [] then exchanges w
                         else exchanges w @ [case answer of Inr token \<Rightarrow> Fulfilled token | Inl e \<Rightarrow> Rejected e])"
  proof (atomize (full), cases "stored_token stored = []", goal_cases)
    case 2
    then have c: "calls w3 ! ?i = Returned (Some (stored_token stored))" by (simp add: rd)
    have "fetchEnvToken False w = (Some (Inr (Some (stored_token stored))), w3)"
      using c rd(5) by (simp add: fetch_result w3run Let_def call_result_def del: run_Cons)
    then show ?case using 2 by (simp add: w'_def rd f1)
  next
    case 1
    then have c: "calls w3 ! ?i = AwaitPromise ?p" by (simp add: rd)
    have x: "?p < length (exchanges w3)" "exchanges w3 ! ?p = Exchanging email password"
      using 1 by (simp_all add: rd)
    define w5 where "w5 = run w3 [ExchangeDone ?p, WriteDone ?p]"
    note post = settle_exchange [OF x, folded w5_def, unfolded rd, folded answer_def]
    have f: "fetchEnvToken False w = (call_result w5 ?i, w5)"
      using c by (simp add: fetch_result w3run w5_def [symmetric] Let_def del: run_Cons)
    have r: "call_result w5 ?i = Some (case answer of Inr token \<Rightarrow> Inr (Some token) | Inl e \<Rightarrow> Inl e)"
      using c rd(5) 1 by (simp add: call_result_def post rd split: sum.splits)
    show ?case
      using 1 by (simp add: w'_def f r post rd f1 cong: sum.case_cong split: sum.splits)
  qed
qed

text \<open>
  Claim C10. When \<open>readToken\<close> raises (a refused read, a file that does not parse), the
  invocation resumed from that read logs the error, marks the cache loaded, adopts no
  token from the store, and is not settled with the error: it returns the token
  another invocation cached in the meantime, or else awaits an exchange, the pending
  one or one it starts. Run on its own from a state in which the cache does not answer,
  the call ends as its exchange ends, and the read error appears in the log only.
\<close>

theorem store_read_error_is_absorbed:
  "(i < length (calls w) \<and> calls w ! i = AwaitRead email password \<and> readToken email (disk w) = Inl err
      \<longrightarrow> (let w' = step w (ReadDone i)
           in cacheLoaded w' \<and> cachedEnvToken w' = cachedEnvToken w \<and>
              events w' = events w @ [Warn ''Failed to read cached Money Lover token:'' err]
                @ (if cachedEnvToken w = [] \<and> envTokenPromise w = None
                   then [GetTokenCall email password] else []) \<and>
              calls w' ! i =
                (if cachedEnvToken w \<noteq> [] then Returned (Some (cachedEnvToken w))
                 else AwaitPromise (case envTokenPromise w of None \<Rightarrow> length (exchanges w) | Some p \<Rightarrow> p))))
   \<and> (getEnvConfig (process_env w) = (email, password, []) \<and> email \<noteq> [] \<and> password \<noteq> [] \<and>
       unloaded email w \<and> readToken email (disk w) = Inl err
      \<longrightarrow> fst (fetchEnvToken False w) =
            Some (case getToken (authenticator w (length (exchanges w)) email password) of
                    Inr token \<Rightarrow> Inr (Some token) | Inl e \<Rightarrow> Inl e) \<and>
          cacheLoaded (snd (fetchEnvToken False w)) \<and>
          events (snd (fetchEnvToken False w)) =
            events w @ [ReadTokenCall email, Warn ''Failed to read cached Money Lover token:'' err,
                        GetTokenCall email password]
              @ (case getToken (authenticator w (length (exchanges w)) email password) of
                   Inr token \<Rightarrow> WriteTokenCall email token #
                     warning ''Failed to persist Money Lover token:'' (fst (writeToken email token (clock w) (disk w)))
                 | Inl e \<Rightarrow> []))"
proof (rule conjI [OF impI impI])
  assume a: "i < length (calls w) \<and> calls w ! i = AwaitRead email password \<and> readToken email (disk w) = Inl err"
  then have c: "i < length (calls w)" "calls w ! i = AwaitRead email password" by simp_all
  from a have s: "stored_token (readToken email (disk w)) = []"
    "warning ''Failed to read cached Money Lover token:'' (readToken email (disk w))
       = [Warn ''Failed to read cached Money Lover token:'' err]"
    by (simp_all add: stored_token_def warning_def)
  note rd = read_done [OF c, unfolded s]
  show "let w' = step w (ReadDone i)
           in cacheLoaded w' \<and> cachedEnvToken w' = cachedEnvToken w \<and>
              events w' = events w @ [Warn ''Failed to read cached Money Lover token:'' err]
                @ (if cachedEnvToken w = [] \<and> envTokenPromise w = None
                   then [GetTokenCall email password] else []) \<and>
              calls w' ! i =
                (if cachedEnvToken w \<noteq> [] then Returned (Some (cachedEnvToken w))
                 else AwaitPromise (case envTokenPromise w of None \<Rightarrow> length (exchanges w) | Some p \<Rightarrow> p))"
    using rd(1,2,4,6) by (simp add: Let_def split: option.splits)
next
  assume a: "getEnvConfig (process_env w) = (email, password, []) \<and> email \<noteq> [] \<and> password \<noteq> [] \<and>
       unloaded email w \<and> readToken email (disk w) = Inl err"
  then have h: "getEnvConfig (process_env w) = (email, password, [])" "email \<noteq> []" "password \<noteq> []"
    "unloaded email w" by simp_all
  from a have s: "stored_token (readToken email (disk w)) = []"
    "warning ''Failed to read cached Money Lover token:'' (readToken email (disk w))
       = [Warn ''Failed to read cached Money Lover token:'' err]"
    by (simp_all add: stored_token_def warning_def)
  note fu = fetch_unloaded [OF h, unfolded s]
  show "fst (fetchEnvToken False w) =
            Some (case getToken (authenticator w (length (exchanges w)) email password) of
                    Inr token \<Rightarrow> Inr (Some token) | Inl e \<Rightarrow> Inl e) \<and>
          cacheLoaded (snd (fetchEnvToken False w)) \<and>
          events (snd (fetchEnvToken False w)) =
            events w @ [ReadTokenCall email, Warn ''Failed to read cached Money Lover token:'' err,
                        GetTokenCall email password]
              @ (case getToken (authenticator w (length (exchanges w)) email password) of
                   Inr token \<Rightarrow> WriteTokenCall email token #
                     warning ''Failed to persist Money Lover token:'' (fst (writeToken email token (clock w) (disk w)))
                 | Inl e \<Rightarrow> [])"
    using fu(1,2,6) by simp
qed

lemma corrupt_world_fields:
  "process_env corrupt_world = ident_env" "disk corrupt_world = corrupt_fs" "events corrupt_world = []"
  "exchanges corrupt_world = []" "calls corrupt_world = []" "authenticator corrupt_world = demo_auth"
  "clock corrupt_world = ''now''" "cachedEnvEmail corrupt_world = []" "cachedEnvToken corrupt_world = []"
  "envTokenPromise corrupt_world = None" "cacheLoaded corrupt_world = False"
  "cachedEnvUsesDirectToken corrupt_world = False"
  by (simp_all add: corrupt_world_def start_def)

lemma corrupt_read: "readToken ''a@x.io'' corrupt_fs = Inl (Error ''SyntaxError'')"
  by (simp add: readToken_def fs_readFile_def corrupt_fs_def demo_fs_def getTokenPath_def CACHE_DIR_def
        JSON_parse_def Error_def)

lemma corrupt_called:
  "step corrupt_world (Call False) =
     corrupt_world\<lparr>cachedEnvEmail := ''a@x.io'', cachedEnvToken := [], envTokenPromise := None,
        cacheLoaded := False, events := [ReadTokenCall ''a@x.io''], calls := [AwaitRead ''a@x.io'' ''pw'']\<rparr>"
  by (simp add: step_Call fetchEnvToken_enter_def fetchEnvToken_load_def corrupt_world_fields
        ident_env_config Let_def)

theorem store_read_error_is_absorbed_witness:
  "readToken ''a@x.io'' (disk corrupt_world) = Inl (Error ''SyntaxError'')
   \<and> calls (step corrupt_world (Call False)) ! 0 = AwaitRead ''a@x.io'' ''pw''
   \<and> calls (step (step corrupt_world (Call False)) (ReadDone 0)) ! 0 = AwaitPromise 0
   \<and> fst (fetchEnvToken False corrupt_world) = Some (Inr (Some ''token-of-a@x.io''))
   \<and> Warn ''Failed to read cached Money Lover token:'' (Error ''SyntaxError'')
        \<in> set (events (snd (fetchEnvToken False corrupt_world)))"
proof -
  have r: "readToken ''a@x.io'' (disk corrupt_world) = Inl (Error ''SyntaxError'')"
    by (simp add: corrupt_world_fields corrupt_read)
  have u: "unloaded ''a@x.io'' corrupt_world"
    by (simp add: unloaded_def corrupt_world_fields)
  have cfg: "getEnvConfig (process_env corrupt_world) = (''a@x.io'', ''pw'', [])"
    by (simp add: corrupt_world_fields ident_env_config)
  have c: "calls (step corrupt_world (Call False)) ! 0 = AwaitRead ''a@x.io'' ''pw''"
    "0 < length (calls (step corrupt_world (Call False)))"
    "readToken ''a@x.io'' (disk (step corrupt_world (Call False))) = Inl (Error ''SyntaxError'')"
    "cachedEnvToken (step corrupt_world (Call False)) = []"
    "envTokenPromise (step corrupt_world (Call False)) = None"
    "exchanges (step corrupt_world (Call False)) = []"
    by (simp_all add: corrupt_called corrupt_world_fields corrupt_read)
  from store_read_error_is_absorbed [of 0 "step corrupt_world (Call False)" "''a@x.io''" "''pw''" "Error ''SyntaxError''",
        THEN conjunct1] c
  have 1: "calls (step (step corrupt_world (Call False)) (ReadDone 0)) ! 0 = AwaitPromise 0"
    by (simp add: Let_def)
  from store_read_error_is_absorbed [of 0 corrupt_world "''a@x.io''" "''pw''" "Error ''SyntaxError''",
        THEN conjunct2] r u cfg
  have 2: "fst (fetchEnvToken False corrupt_world) = Some (Inr (Some ''token-of-a@x.io''))
     \<and> Warn ''Failed to read cached Money Lover token:'' (Error ''SyntaxError'')
        \<in> set (events (snd (fetchEnvToken False corrupt_world)))"
    by (simp add: corrupt_world_fields demo_auth_def getToken_def)
  from r c(1) 1 2 show ?thesis by simp
qed

section \<open>Running an operation\<close>

lemma operations_append [simp]: "operations (xs @ ys) = operations xs @ operations ys"
  by (simp add: operations_def)

lemma operations_simps [simp]:
  "operations [] = []"
  "operations (Operation t # es) = t # operations es"
  "operations (RemoveTokenCall e # es) = operations es"
  "operations (ReadTokenCall e # es) = operations es"
  "operations (WriteTokenCall e t # es) = operations es"
  "operations (GetTokenCall e p # es) = operations es"
  "operations (Warn m err # es) = operations es"
  by (simp_all add: operations_def)

lemma operations_warning [simp]: "operations (warning m r) = []"
  by (simp add: warning_def split: sum.splits)

lemma trim_idem: "trim (trim s) = trim s"
proof -
  let ?P = "\<lambda>c. c \<in> set whitespace"
  define x where "x = dropWhile ?P s"
  have t: "trim s = rev (dropWhile ?P (rev x))" by (simp add: trim_def x_def)
  show ?thesis
  proof (cases x)
    case Nil
    then have e: "trim s = []" by (simp add: t)
    have "trim [] = []" by (simp add: trim_def)
    then show ?thesis by (simp add: e)
  next
    case (Cons a xs)
    have na: "\<not> ?P a"
      using Cons hd_dropWhile [of ?P s] by (simp add: x_def)
    have "dropWhile ?P (rev xs @ [a]) = dropWhile ?P (rev xs) @ [a]"
      using na by (simp add: dropWhile_append)
    then have y: "trim s = a # rev (dropWhile ?P (rev xs))"
      by (simp add: t Cons)
    have d: "dropWhile ?P (trim s) = trim s" using na by (simp add: y)
    have "rev (trim s) = dropWhile ?P (rev x)" by (simp add: t)
    then have "dropWhile ?P (rev (trim s)) = rev (trim s)" by simp
    then show ?thesis
      unfolding trim_def [of "trim s"] d by simp
  qed
qed

lemma run_operation_explicit:
  "run_operation False token fn w = (Some (fn 0 token), w\<lparr>events := events w @ [Operation token]\<rparr>)"
  by (simp add: run_operation_def invoke_def split: sum.splits)

lemma trim_blank: "trim ''  '' = []" "trim '' jwt '' = ''jwt''"
  by (simp_all add: trim_def whitespace_def)

lemma ops_step: "operations (events (step w a)) = operations (events w)"
proof (cases a)
  case (Call f)
  then show ?thesis
    by (auto simp: step_Call fetchEnvToken_enter_def fetchEnvToken_load_def fetchEnvToken_resolve_def
          Let_def split: prod.splits option.splits)
next
  case (RemoveDone i)
  then show ?thesis
    by (auto simp: step.simps resume_def after_removeToken_def fetchEnvToken_load_def
          fetchEnvToken_resolve_def Let_def split: prod.splits option.splits call_state.splits sum.splits)
next
  case (ReadDone i)
  then show ?thesis
    by (auto simp: step.simps resume_def after_read fetchEnvToken_resolve_def Let_def
          split: prod.splits option.splits call_state.splits)
next
  case (ExchangeDone p)
  then show ?thesis
    by (auto simp: step.simps getToken_settled_def split: exchange_state.splits sum.splits)
next
  case (WriteDone p)
  then show ?thesis
    by (auto simp: step.simps after_writeToken_def Let_def split: exchange_state.splits sum.splits prod.splits)
next
  case (SetEnv env)
  then show ?thesis by (simp add: step.simps)
qed

lemma ops_run: "operations (events (run w acts)) = operations (events w)"
  by (induction acts arbitrary: w) (simp_all add: ops_step)

lemma ops_fetch: "operations (events (snd (fetchEnvToken f w))) = operations (events w)"
  by (simp add: fetch_result Let_def ops_run split: call_state.splits del: run_Cons)

lemma run_after_auth_failure:
  assumes "providedToken = None \<or> providedToken = Some []"
    and "fetchEnvToken False w = (Some (Inr (Some t)), w1)" and "t \<noteq> []"
    and "fn 0 t = Inl error" and "isAuthError error"
  shows "runWithResolvedToken providedToken fn w =
      (case fetchEnvToken True (w1\<lparr>events := events w1 @ [Operation t]\<rparr>) of
         (None, w2) \<Rightarrow> (None, w2)
       | (Some (Inl refreshError), w2) \<Rightarrow> (Some (Inl refreshError), w2)
       | (Some (Inr None), w2) \<Rightarrow> (Some (Inl error), w2)
       | (Some (Inr (Some t2)), w2) \<Rightarrow>
           if t2 = [] then (Some (Inl error), w2)
           else (Some (fn 1 t2), w2\<lparr>events := events w2 @ [Operation t2]\<rparr>))"
proof -
  have "runWithResolvedToken providedToken fn w = run_operation True t fn w1"
    using assms by (auto simp: runWithResolvedToken_def resolve_from_env_def)
  then show ?thesis
    using assms by (simp add: run_operation_def invoke_def split: prod.splits option.splits sum.splits)
qed

lemma fetch_forced:
  assumes cfg: "getEnvConfig (process_env w) = (email, password, [])" "email \<noteq> []" "password \<noteq> []"
  defines "fs1 \<equiv> snd (removeToken email (disk w))"
  defines "st \<equiv> stored_token (readToken email fs1)"
  defines "answer \<equiv> getToken (authenticator w (length (exchanges w)) email password)"
  shows "fst (fetchEnvToken True w) =
           Some (if st \<noteq> [] then Inr (Some st)
                 else (case answer of Inr token \<Rightarrow> Inr (Some token) | Inl e \<Rightarrow> Inl e))"
    and "disk (snd (fetchEnvToken True w)) =
           (if st \<noteq> [] then fs1
            else (case answer of Inr token \<Rightarrow> snd (writeToken email token (clock w) fs1) | Inl e \<Rightarrow> fs1))"
    and "process_env (snd (fetchEnvToken True w)) = process_env w"
proof -
  let ?i = "length (calls w)"
  let ?p = "length (exchanges w)"
  define w3 where "w3 = run w [Call True, RemoveDone ?i, ReadDone ?i]"
  note pre = forced_fetch_prefix [OF cfg, folded w3_def fs1_def, folded st_def]
  show "fst (fetchEnvToken True w) =
           Some (if st \<noteq> [] then Inr (Some st)
                 else (case answer of Inr token \<Rightarrow> Inr (Some token) | Inl e \<Rightarrow> Inl e))"
    and "disk (snd (fetchEnvToken True w)) =
           (if st \<noteq> [] then fs1
            else (case answer of Inr token \<Rightarrow> snd (writeToken email token (clock w) fs1) | Inl e \<Rightarrow> fs1))"
    and "process_env (snd (fetchEnvToken True w)) = process_env w"
  proof (atomize (full), cases "st = []", goal_cases)
    case 2
    then have c: "calls w3 ! ?i = Returned (Some st)" by (simp add: pre)
    have "fetchEnvToken True w = (Some (Inr (Some st)), w3)"
      using c pre(9) by (simp add: fetch_result w3_def [symmetric] Let_def call_result_def del: run_Cons)
    then show ?case using 2 by (simp add: pre)
  next
    case 1
    then have c: "calls w3 ! ?i = AwaitPromise ?p" by (simp add: pre)
    have x: "?p < length (exchanges w3)" "exchanges w3 ! ?p = Exchanging email password"
      using 1 by (simp_all add: pre)
    define w5 where "w5 = run w3 [ExchangeDone ?p, WriteDone ?p]"
    note post = settle_exchange [OF x, folded w5_def, unfolded pre, folded answer_def]
    have f: "fetchEnvToken True w = (call_result w5 ?i, w5)"
      using c by (simp add: fetch_result w3_def [symmetric] w5_def [symmetric] Let_def del: run_Cons)
    have r: "call_result w5 ?i = Some (case answer of Inr token \<Rightarrow> Inr (Some token) | Inl e \<Rightarrow> Inl e)"
      using c pre(9) 1 by (simp add: call_result_def post pre split: sum.splits)
    show ?case
      using 1 by (simp add: f r post pre cong: sum.case_cong)
  qed
qed

lemma stale_read: "readToken ''a@x.io'' stale_fs = Inr (Some ''stale'')"
  by (simp add: readToken_def fs_readFile_def stale_fs_def demo_fs_def getTokenPath_def CACHE_DIR_def
        JSON_parse_def)

lemma stale_start_fetch:
  fixes auth
  defines "W \<equiv> start ident_env stale_fs ''now'' auth"
  shows "fetchEnvToken False W = (Some (Inr (Some ''stale'')), snd (fetchEnvToken False W))"
    and "disk (snd (fetchEnvToken False W)) = stale_fs"
    and "process_env (snd (fetchEnvToken False W)) = ident_env"
    and "authenticator (snd (fetchEnvToken False W)) = auth"
    and "exchanges (snd (fetchEnvToken False W)) = []"
    and "events (snd (fetchEnvToken False W)) = [ReadTokenCall ''a@x.io'']"
proof -
  have f: "process_env W = ident_env" "disk W = stale_fs" "events W = []" "exchanges W = []"
    "authenticator W = auth" "clock W = ''now''"
    by (simp_all add: W_def start_def)
  have cfg: "getEnvConfig (process_env W) = (''a@x.io'', ''pw'', [])"
    by (simp add: f ident_env_config)
  have u: "unloaded ''a@x.io'' W"
    by (simp add: unloaded_def W_def start_def)
  note fu = fetch_unloaded [OF cfg _ _ u, simplified, unfolded f stale_read]
  have "fst (fetchEnvToken False W) = Some (Inr (Some ''stale''))"
    using fu(1) by (simp add: stored_token_def)
  then show "fetchEnvToken False W = (Some (Inr (Some ''stale'')), snd (fetchEnvToken False W))"
    by (simp add: prod_eq_iff)
  show "disk (snd (fetchEnvToken False W)) = stale_fs"
    and "process_env (snd (fetchEnvToken False W)) = ident_env"
    and "authenticator (snd (fetchEnvToken False W)) = auth"
    and "exchanges (snd (fetchEnvToken False W)) = []"
    and "events (snd (fetchEnvToken False W)) = [ReadTokenCall ''a@x.io'']"
    using fu by (simp_all add: stored_token_def warning_def)
qed

lemma stale_refresh:
  fixes auth
  defines "W \<equiv> start ident_env stale_fs ''now'' auth"
  defines "w1 \<equiv> snd (fetchEnvToken False W)"
  shows "fst (fetchEnvToken True (w1\<lparr>events := events w1 @ [Operation ''stale'']\<rparr>)) =
     Some (case getToken (auth 0 ''a@x.io'' ''pw'') of Inr token \<Rightarrow> Inr (Some token) | Inl e \<Rightarrow> Inl e)"
proof -
  note sf = stale_start_fetch [of auth, folded W_def, folded w1_def]
  let ?w = "w1\<lparr>events := events w1 @ [Operation ''stale'']\<rparr>"
  have cfg: "getEnvConfig (process_env ?w) = (''a@x.io'', ''pw'', [])"
    by (simp add: sf ident_env_config)
  from fetch_forced(1) [OF cfg] show ?thesis
    by (simp add: sf stale_removed demo_read stored_token_def)
qed

lemma reject_facts:
  "fetchEnvToken False reject_world = (Some (Inr (Some ''stale'')), snd (fetchEnvToken False reject_world))"
  "disk (snd (fetchEnvToken False reject_world)) = stale_fs"
  "process_env (snd (fetchEnvToken False reject_world)) = ident_env"
  "authenticator (snd (fetchEnvToken False reject_world)) = reject_auth"
  "exchanges (snd (fetchEnvToken False reject_world)) = []"
  unfolding reject_world_def by (rule stale_start_fetch)+

lemma expired_op_first:
  "expired_op 0 token = Inl (MoneyloverApiError ''user_unauthenticated'' (CodeNumber 1))"
  by (simp add: expired_op_def)

lemma unauthenticated_is_auth_error:
  "isAuthError (MoneyloverApiError ''user_unauthenticated'' (CodeNumber 1))"
  by (simp add: isAuthError_def MoneyloverApiError_def)

lemma run_operation_success:
  "fn 0 t = Inr r \<Longrightarrow>
   run_operation used t fn w = (Some (Inr r), w\<lparr>events := events w @ [Operation t]\<rparr>)"
  by (simp add: run_operation_def invoke_def)

lemma run_operation_auth_failure:
  assumes "fn 0 t = Inl error" and "isAuthError error"
  shows "run_operation True t fn w =
      (case fetchEnvToken True (w\<lparr>events := events w @ [Operation t]\<rparr>) of
         (None, w2) \<Rightarrow> (None, w2)
       | (Some (Inl refreshError), w2) \<Rightarrow> (Some (Inl refreshError), w2)
       | (Some (Inr None), w2) \<Rightarrow> (Some (Inl error), w2)
       | (Some (Inr (Some t2)), w2) \<Rightarrow>
           if t2 = [] then (Some (Inl error), w2)
           else (Some (fn 1 t2), w2\<lparr>events := events w2 @ [Operation t2]\<rparr>))"
  using assms
  by (simp add: run_operation_def invoke_def split: prod.splits option.splits sum.splits)

lemma run_via_env:
  assumes "providedToken = None \<or> providedToken = Some []"
    and "fetchEnvToken False w = (Some (Inr (Some t)), w1)" and "t \<noteq> []"
  shows "runWithResolvedToken providedToken fn w = run_operation True t fn w1"
  using assms by (auto simp: runWithResolvedToken_def resolve_from_env_def)

lemma run_missing:
  assumes "providedToken = None \<or> providedToken = Some []"
    and "fetchEnvToken False w = (Some (Inr None), w1)"
  shows "runWithResolvedToken providedToken fn w = (Some (Inl missingTokenError), w1)"
  using assms by (auto simp: runWithResolvedToken_def resolve_from_env_def)

lemma run_fetch_failed:
  assumes "providedToken = None \<or> providedToken = Some []"
    and "fetchEnvToken False w = (Some (Inl e), w1)"
  shows "runWithResolvedToken providedToken fn w = (Some (Inl e), w1)"
  using assms by (auto simp: runWithResolvedToken_def resolve_from_env_def)

lemma fetch_absent:
  assumes "getEnvConfig (process_env w) = (email, password, [])" and "email = [] \<or> password = []"
  shows "fetchEnvToken f w = (Some (Inr None), step w (Call f))"
  by (rule fetch_returned) (use assms in \<open>auto simp: fetchEnvToken_enter_def Let_def\<close>)

lemma trim_Nil: "trim [] = []"
  by (simp add: trim_def)

lemma withClient_trimmed: "trim t \<noteq> [] \<Longrightarrow> withClient t f = f (trim t)"
  by (simp add: withClient_def ensureString_def)

lemma call_tool_blank:
  assumes "trim s = []"
  shows "call_tool (Str s) fn w = runWithResolvedToken None (\<lambda>n resolvedToken. withClient resolvedToken (fn n)) w"
  using assms by (simp add: call_tool_def tokenSchema_def runWithClient_def Let_def)

lemma bare_absent: "getEnvConfig (process_env bare_world) = ([], [], [])"
  by (simp add: bare_world_def start_def getEnvConfig_def DIRECT_TOKEN_ENV_KEYS_def Let_def)

lemma trim_tokens: "trim ''stale'' = ''stale''" "trim ''token-of-a@x.io'' = ''token-of-a@x.io''"
  by (simp_all add: trim_def whitespace_def)

lemma bare_fetch:
  "fetchEnvToken f bare_world = (Some (Inr None), step bare_world (Call f))"
  by (rule fetch_absent [OF bare_absent]) simp

lemma stale_retry_state:
  fixes auth
  defines "W \<equiv> start ident_env stale_fs ''now'' auth"
  defines "w1 \<equiv> snd (fetchEnvToken False W)"
  defines "w2 \<equiv> snd (fetchEnvToken True (w1\<lparr>events := events w1 @ [Operation ''stale'']\<rparr>))"
  shows "operations (events w1) = []" and "operations (events w2) = [''stale'']"
proof -
  have "operations (events W) = []"
    by (simp add: W_def start_def)
  then show "operations (events w1) = []"
    unfolding w1_def by (simp add: ops_fetch)
  then show "operations (events w2) = [''stale'']"
    unfolding w2_def by (simp add: ops_fetch)
qed

lemma written_then_removed:
  "stored_token (readToken ''a@x.io''
     (snd (removeToken ''a@x.io'' (snd (writeToken ''a@x.io'' t ''now'' demo_fs))))) = []"
  by (simp add: writeToken_def ensureCacheDir_def fs_mkdir_def fs_writeFile_def fs_chmod_def demo_fs_def
        Let_def JSON_stringify_def getTokenPath_def CACHE_DIR_def removeToken_def fs_unlink_def
        readToken_def fs_readFile_def fs_error_def stored_token_def)

lemma flaky_start:
  defines "w1 \<equiv> snd (fetchEnvToken False flaky_world)"
  shows "fetchEnvToken False flaky_world = (Some (Inr (Some ''t0'')), w1)"
    and "disk w1 = snd (writeToken ''a@x.io'' ''t0'' ''now'' demo_fs)"
    and "process_env w1 = ident_env"
    and "authenticator w1 = flaky_auth"
    and "exchanges w1 = [Fulfilled ''t0'']"
proof -
  have f: "process_env flaky_world = ident_env" "disk flaky_world = demo_fs" "events flaky_world = []"
    "exchanges flaky_world = []" "authenticator flaky_world = flaky_auth" "clock flaky_world = ''now''"
    by (simp_all add: flaky_world_def start_def)
  have cfg: "getEnvConfig (process_env flaky_world) = (''a@x.io'', ''pw'', [])"
    by (simp add: f ident_env_config)
  have u: "unloaded ''a@x.io'' flaky_world"
    by (simp add: unloaded_def flaky_world_def start_def)
  have g: "getToken (flaky_auth 0 ''a@x.io'' ''pw'') = Inr ''t0''"
    by (simp add: getToken_def flaky_auth_def)
  note fu = fetch_unloaded [OF cfg _ _ u, simplified, unfolded f demo_read, folded w1_def]
  have "fst (fetchEnvToken False flaky_world) = Some (Inr (Some ''t0''))"
    using fu(1) by (simp add: stored_token_def g)
  then show "fetchEnvToken False flaky_world = (Some (Inr (Some ''t0'')), w1)"
    by (simp add: prod_eq_iff w1_def)
  show "disk w1 = snd (writeToken ''a@x.io'' ''t0'' ''now'' demo_fs)"
    and "process_env w1 = ident_env"
    and "authenticator w1 = flaky_auth"
    and "exchanges w1 = [Fulfilled ''t0'']"
    using fu by (simp_all add: stored_token_def g)
qed

lemma flaky_refresh:
  defines "w1 \<equiv> snd (fetchEnvToken False flaky_world)"
  shows "fst (fetchEnvToken True (w1\<lparr>events := events w1 @ [Operation ''t0'']\<rparr>)) =
     Some (Inl (Error ''Failed to retrieve access token: HTTP 401''))"
proof -
  note sf = flaky_start [folded w1_def]
  let ?w = "w1\<lparr>events := events w1 @ [Operation ''t0'']\<rparr>"
  have cfg: "getEnvConfig (process_env ?w) = (''a@x.io'', ''pw'', [])"
    by (simp add: sf ident_env_config)
  have g: "getToken (flaky_auth (Suc 0) ''a@x.io'' ''pw'') = Inl (Error ''Failed to retrieve access token: HTTP 401'')"
    by (simp add: getToken_def flaky_auth_def)
  from fetch_forced(1) [OF cfg] show ?thesis
    by (simp add: sf written_then_removed g)
qed

lemma bare_refresh:
  "fetchEnvToken True (bare_world\<lparr>events := events bare_world @ [Operation t]\<rparr>) =
     (Some (Inr None), step (bare_world\<lparr>events := events bare_world @ [Operation t]\<rparr>) (Call True))"
  by (rule fetch_absent [of _ "[]" "[]"]) (simp_all add: bare_absent)

lemma bare_operations: "operations (events bare_world) = []"
  by (simp add: bare_world_def start_def)

lemma reject_operations: "operations (events reject_world) = []"
  by (simp add: reject_world_def start_def)

text \<open>
  Claim C9. A \<open>token\<close> argument of a tool that is a string with nothing left after
  trimming is parsed to \<open>undefined\<close>, so the tool behaves exactly as when the argument is
  absent: \<open>runWithResolvedToken\<close> takes the token from \<open>fetchEnvToken\<close> (for
  \<open>undefined\<close> and for the empty string alike). \<open>fetchEnvToken\<close> is called without
  forcing a refresh, in the state of the call. When it yields \<open>null\<close> the result is the
  error \<open>Token is required\<close>, and when it fails its error is the result. When it yields a
  token \<open>t\<close>, the operation runs with \<open>t\<close> (trimmed by \<open>withClient\<close>) in the state
  \<open>fetchEnvToken\<close> has left: a success is the result; an authentication failure is
  followed by \<open>fetchEnvToken\<close> with a forced refresh, and with the token \<open>t2\<close> it
  yields the operation runs a second time, the outcome of that run being the result.
  A string with something left after trimming is used as it is trimmed: the operation
  runs once with it, its outcome is the result even when it is an authentication
  failure, and nothing of the state changes but the record of this one run.
\<close>

theorem blank_token_argument_is_absent:
  "(trim s = [] \<longrightarrow>
      call_tool (Str s) fn w = call_tool Undefined fn w \<and>
      call_tool Undefined fn w = resolve_from_env (\<lambda>n resolvedToken. withClient resolvedToken (fn n)) w \<and>
      runWithResolvedToken (Some []) g w = resolve_from_env g w \<and>
      runWithResolvedToken None g w = resolve_from_env g w \<and>
      (fetchEnvToken False w = (Some (Inr None), w1)
         \<longrightarrow> call_tool (Str s) fn w = (Some (Inl missingTokenError), w1)) \<and>
      (fetchEnvToken False w = (Some (Inl e), w1)
         \<longrightarrow> call_tool (Str s) fn w = (Some (Inl e), w1)) \<and>
      (fetchEnvToken False w = (Some (Inr (Some t)), w1) \<and> trim t \<noteq> [] \<and> fn 0 (trim t) = Inr r
         \<longrightarrow> call_tool (Str s) fn w = (Some (Inr r), w1\<lparr>events := events w1 @ [Operation t]\<rparr>)) \<and>
      (fetchEnvToken False w = (Some (Inr (Some t)), w1) \<and> trim t \<noteq> [] \<and>
       fn 0 (trim t) = Inl error \<and> isAuthError error \<and>
       fetchEnvToken True (w1\<lparr>events := events w1 @ [Operation t]\<rparr>) = (Some (Inr (Some t2)), w2) \<and>
       trim t2 \<noteq> []
         \<longrightarrow> call_tool (Str s) fn w =
               (Some (fn 1 (trim t2)), w2\<lparr>events := events w2 @ [Operation t2]\<rparr>)))
   \<and> (trim s \<noteq> [] \<longrightarrow>
      call_tool (Str s) fn w =
        (Some (fn 0 (trim s)), w\<lparr>events := events w @ [Operation (trim s)]\<rparr>))"
proof (rule conjI [OF impI impI])
  assume b: "trim s = []"
  let ?g = "\<lambda>n resolvedToken. withClient resolvedToken (fn n)"
  have c: "call_tool (Str s) fn w = runWithResolvedToken None ?g w"
    using b by (rule call_tool_blank)
  have old: "call_tool (Str s) fn w = call_tool Undefined fn w \<and>
      call_tool Undefined fn w = resolve_from_env ?g w \<and>
      runWithResolvedToken (Some []) g w = resolve_from_env g w \<and>
      runWithResolvedToken None g w = resolve_from_env g w"
    using b by (simp add: call_tool_def tokenSchema_def runWithClient_def runWithResolvedToken_def Let_def)
  have absent: "call_tool (Str s) fn w = (Some (Inl missingTokenError), w1)"
    if "fetchEnvToken False w = (Some (Inr None), w1)"
    unfolding c using that by (intro run_missing) simp_all
  have failed: "call_tool (Str s) fn w = (Some (Inl e), w1)"
    if "fetchEnvToken False w = (Some (Inl e), w1)"
    unfolding c using that by (intro run_fetch_failed) simp_all
  have env: "call_tool (Str s) fn w = run_operation True t ?g w1"
    if "fetchEnvToken False w = (Some (Inr (Some t)), w1)" and "trim t \<noteq> []"
  proof -
    have "t \<noteq> []" using that(2) by (auto simp: trim_Nil)
    then show ?thesis unfolding c using that(1) by (intro run_via_env) simp_all
  qed
  have good: "call_tool (Str s) fn w = (Some (Inr r), w1\<lparr>events := events w1 @ [Operation t]\<rparr>)"
    if "fetchEnvToken False w = (Some (Inr (Some t)), w1)" and "trim t \<noteq> []" and "fn 0 (trim t) = Inr r"
    unfolding env [OF that(1,2)]
    by (rule run_operation_success) (simp add: withClient_trimmed that)
  have retry: "call_tool (Str s) fn w = (Some (fn 1 (trim t2)), w2\<lparr>events := events w2 @ [Operation t2]\<rparr>)"
    if "fetchEnvToken False w = (Some (Inr (Some t)), w1)" and "trim t \<noteq> []"
      and "fn 0 (trim t) = Inl error" and "isAuthError error"
      and "fetchEnvToken True (w1\<lparr>events := events w1 @ [Operation t]\<rparr>) = (Some (Inr (Some t2)), w2)"
      and "trim t2 \<noteq> []"
  proof -
    have "?g 0 t = Inl error" by (simp add: withClient_trimmed that)
    from run_operation_auth_failure [of ?g, OF this that(4), of w1]
    have "run_operation True t ?g w1 =
        (if t2 = [] then (Some (Inl error), w2)
         else (Some (withClient t2 (fn 1)), w2\<lparr>events := events w2 @ [Operation t2]\<rparr>))"
      by (simp add: that(5))
    moreover have "t2 \<noteq> []" using that(6) by (auto simp: trim_Nil)
    ultimately show ?thesis
      unfolding env [OF that(1,2)] by (simp add: withClient_trimmed that(6))
  qed
  show "call_tool (Str s) fn w = call_tool Undefined fn w \<and>
      call_tool Undefined fn w = resolve_from_env (\<lambda>n resolvedToken. withClient resolvedToken (fn n)) w \<and>
      runWithResolvedToken (Some []) g w = resolve_from_env g w \<and>
      runWithResolvedToken None g w = resolve_from_env g w \<and>
      (fetchEnvToken False w = (Some (Inr None), w1)
         \<longrightarrow> call_tool (Str s) fn w = (Some (Inl missingTokenError), w1)) \<and>
      (fetchEnvToken False w = (Some (Inl e), w1)
         \<longrightarrow> call_tool (Str s) fn w = (Some (Inl e), w1)) \<and>
      (fetchEnvToken False w = (Some (Inr (Some t)), w1) \<and> trim t \<noteq> [] \<and> fn 0 (trim t) = Inr r
         \<longrightarrow> call_tool (Str s) fn w = (Some (Inr r), w1\<lparr>events := events w1 @ [Operation t]\<rparr>)) \<and>
      (fetchEnvToken False w = (Some (Inr (Some t)), w1) \<and> trim t \<noteq> [] \<and>
       fn 0 (trim t) = Inl error \<and> isAuthError error \<and>
       fetchEnvToken True (w1\<lparr>events := events w1 @ [Operation t]\<rparr>) = (Some (Inr (Some t2)), w2) \<and>
       trim t2 \<noteq> []
         \<longrightarrow> call_tool (Str s) fn w =
               (Some (fn 1 (trim t2)), w2\<lparr>events := events w2 @ [Operation t2]\<rparr>))"
    using old absent failed good retry by blast
next
  assume n: "trim s \<noteq> []"
  then have "tokenSchema (Str s) = Inr (Some (trim s))"
    by (cases "trim s") (simp_all add: tokenSchema_def Let_def)
  moreover have "withClient (trim s) (fn 0) = fn 0 (trim s)"
    using n by (simp add: withClient_def ensureString_def trim_idem)
  ultimately show "call_tool (Str s) fn w =
        (Some (fn 0 (trim s)), w\<lparr>events := events w @ [Operation (trim s)]\<rparr>)"
    using n by (simp add: call_tool_def runWithClient_def runWithResolvedToken_def run_operation_explicit)
qed

theorem blank_token_argument_is_absent_witness:
  "call_tool (Str ''  '') expired_op stale_world = call_tool Undefined expired_op stale_world
   \<and> call_tool (Str '' jwt '') expired_op stale_world =
       (Some (Inl (MoneyloverApiError ''user_unauthenticated'' (CodeNumber 1))),
        stale_world\<lparr>events := events stale_world @ [Operation ''jwt'']\<rparr>)
   \<and> fst (fetchEnvToken False bare_world) = Some (Inr None)
   \<and> fst (call_tool (Str ''  '') echo_op bare_world) = Some (Inl missingTokenError)
   \<and> fst (fetchEnvToken False stale_world) = Some (Inr (Some ''stale''))
   \<and> fst (call_tool (Str ''  '') echo_op stale_world) = Some (Inr ''stale'')
   \<and> operations (events (snd (call_tool (Str ''  '') echo_op stale_world))) = [''stale'']
   \<and> fst (call_tool (Str ''  '') expired_op stale_world) = Some (Inr ''token-of-a@x.io'')
   \<and> operations (events (snd (call_tool (Str ''  '') expired_op stale_world))) =
       [''stale'', ''token-of-a@x.io'']"
proof -
  have 1: "call_tool (Str ''  '') expired_op stale_world = call_tool Undefined expired_op stale_world"
    using blank_token_argument_is_absent [of "''  ''" expired_op stale_world expired_op]
    by (simp only: trim_blank simp_thms)
  have 2: "call_tool (Str '' jwt '') expired_op stale_world =
       (Some (expired_op 0 ''jwt''), stale_world\<lparr>events := events stale_world @ [Operation ''jwt'']\<rparr>)"
    using blank_token_argument_is_absent [of "'' jwt ''" expired_op stale_world expired_op]
    by (simp only: trim_blank) simp
  have 3: "expired_op 0 ''jwt'' = Inl (MoneyloverApiError ''user_unauthenticated'' (CodeNumber 1))"
    by (simp add: expired_op_def)
  define b1 where "b1 = step bare_world (Call False)"
  have b: "fetchEnvToken False bare_world = (Some (Inr None), b1)"
    unfolding b1_def by (rule bare_fetch)
  have 4: "call_tool (Str ''  '') echo_op bare_world = (Some (Inl missingTokenError), b1)"
    using blank_token_argument_is_absent
            [of "''  ''" echo_op bare_world echo_op b1, THEN conjunct1, rule_format, OF trim_blank(1)]
          b
    by blast
  define w1 where "w1 = snd (fetchEnvToken False stale_world)"
  define w2 where "w2 = snd (fetchEnvToken True (w1\<lparr>events := events w1 @ [Operation ''stale'']\<rparr>))"
  have h1: "fetchEnvToken False stale_world = (Some (Inr (Some ''stale'')), w1)"
    unfolding w1_def stale_world_def by (rule stale_start_fetch)
  have "fst (fetchEnvToken True (w1\<lparr>events := events w1 @ [Operation ''stale'']\<rparr>)) =
      Some (Inr (Some ''token-of-a@x.io''))"
    using stale_refresh [of demo_auth]
    by (simp add: w1_def stale_world_def demo_auth_def getToken_def)
  then have h2: "fetchEnvToken True (w1\<lparr>events := events w1 @ [Operation ''stale'']\<rparr>) =
      (Some (Inr (Some ''token-of-a@x.io'')), w2)"
    by (simp add: prod_eq_iff w2_def)
  note o = stale_retry_state [of demo_auth, folded stale_world_def, folded w1_def, folded w2_def]
  have e: "echo_op 0 (trim ''stale'') = Inr ''stale''"
    by (simp add: echo_op_def trim_tokens)
  have x: "expired_op 0 (trim ''stale'') = Inl (MoneyloverApiError ''user_unauthenticated'' (CodeNumber 1))"
    "expired_op 1 (trim ''token-of-a@x.io'') = Inr ''token-of-a@x.io''"
    by (simp_all add: expired_op_def trim_tokens)
  have n: "trim ''stale'' \<noteq> []" "trim ''token-of-a@x.io'' \<noteq> []"
    by (simp_all add: trim_tokens)
  have 5: "call_tool (Str ''  '') echo_op stale_world =
      (Some (Inr ''stale''), w1\<lparr>events := events w1 @ [Operation ''stale'']\<rparr>)"
    using blank_token_argument_is_absent
            [of "''  ''" echo_op stale_world echo_op w1 _ "''stale''" "''stale''",
             THEN conjunct1, rule_format, OF trim_blank(1)]
          h1 n(1) e
    by blast
  have 6: "call_tool (Str ''  '') expired_op stale_world =
      (Some (expired_op 1 (trim ''token-of-a@x.io'')), w2\<lparr>events := events w2 @ [Operation ''token-of-a@x.io'']\<rparr>)"
    using blank_token_argument_is_absent
            [of "''  ''" expired_op stale_world expired_op w1 _ "''stale''" _
                "MoneyloverApiError ''user_unauthenticated'' (CodeNumber 1)" "''token-of-a@x.io''" w2,
             THEN conjunct1, rule_format, OF trim_blank(1)]
          h1 h2 n x(1) unauthenticated_is_auth_error
    by blast
  note c2 = 2 [unfolded 3]
  have c3: "fst (fetchEnvToken False bare_world) = Some (Inr None)"
    by (simp add: b)
  have c4: "fst (call_tool (Str ''  '') echo_op bare_world) = Some (Inl missingTokenError)"
    by (simp add: 4)
  have c5: "fst (fetchEnvToken False stale_world) = Some (Inr (Some ''stale''))"
    by (simp add: h1)
  have c6: "fst (call_tool (Str ''  '') echo_op stale_world) = Some (Inr ''stale'')"
    by (simp add: 5)
  have c7: "operations (events (snd (call_tool (Str ''  '') echo_op stale_world))) = [''stale'']"
    by (simp add: 5 o)
  have c8: "fst (call_tool (Str ''  '') expired_op stale_world) = Some (Inr ''token-of-a@x.io'')"
    unfolding 6 x(2) by simp
  have c9: "operations (events (snd (call_tool (Str ''  '') expired_op stale_world))) =
       [''stale'', ''token-of-a@x.io'']"
    by (simp add: 6 o)
  show ?thesis
    by (intro conjI; fact)
qed

text \<open>
  Counterexample to claim C3 as it is stated: identity and secret are configured, the store
  is empty, and the authenticator grants the first exchange and refuses the second. The
  operation, run with the token of the first exchange, fails with \<open>user_unauthenticated\<close>
  (code 1); the forced refresh obtains no token, as its exchange is refused; the caller
  gets the error of that exchange, and the original error is not re-raised.
\<close>

theorem failed_refresh_replaces_original_error:
  "fst (fetchEnvToken False flaky_world) = Some (Inr (Some ''t0''))
   \<and> expired_op 0 ''t0'' = Inl (MoneyloverApiError ''user_unauthenticated'' (CodeNumber 1))
   \<and> isAuthError (MoneyloverApiError ''user_unauthenticated'' (CodeNumber 1))
   \<and> (\<forall>t2. fst (fetchEnvToken True
                ((snd (fetchEnvToken False flaky_world))
                   \<lparr>events := events (snd (fetchEnvToken False flaky_world)) @ [Operation ''t0'']\<rparr>))
             \<noteq> Some (Inr (Some t2)))
   \<and> fst (runWithResolvedToken None expired_op flaky_world) =
       Some (Inl (Error ''Failed to retrieve access token: HTTP 401''))
   \<and> fst (runWithResolvedToken None expired_op flaky_world)
       \<noteq> Some (Inl (MoneyloverApiError ''user_unauthenticated'' (CodeNumber 1)))"
proof -
  define w1 where "w1 = snd (fetchEnvToken False flaky_world)"
  note sf = flaky_start [folded w1_def]
  let ?w = "w1\<lparr>events := events w1 @ [Operation ''t0'']\<rparr>"
  have r: "fst (fetchEnvToken True ?w) = Some (Inl (Error ''Failed to retrieve access token: HTTP 401''))"
    unfolding w1_def by (rule flaky_refresh)
  have "runWithResolvedToken None expired_op flaky_world = run_operation True ''t0'' expired_op w1"
    by (rule run_via_env) (simp_all add: sf(1))
  also have "\<dots> =
      (case fetchEnvToken True ?w of
         (None, w2) \<Rightarrow> (None, w2)
       | (Some (Inl refreshError), w2) \<Rightarrow> (Some (Inl refreshError), w2)
       | (Some (Inr None), w2) \<Rightarrow> (Some (Inl (MoneyloverApiError ''user_unauthenticated'' (CodeNumber 1))), w2)
       | (Some (Inr (Some t2)), w2) \<Rightarrow>
           if t2 = [] then (Some (Inl (MoneyloverApiError ''user_unauthenticated'' (CodeNumber 1))), w2)
           else (Some (expired_op 1 t2), w2\<lparr>events := events w2 @ [Operation t2]\<rparr>))"
    by (rule run_operation_auth_failure) (rule expired_op_first unauthenticated_is_auth_error)+
  finally have f: "fst (runWithResolvedToken None expired_op flaky_world) =
      Some (Inl (Error ''Failed to retrieve access token: HTTP 401''))"
    using r by (cases "fetchEnvToken True ?w") simp
  have d: "Error ''Failed to retrieve access token: HTTP 401''
      \<noteq> MoneyloverApiError ''user_unauthenticated'' (CodeNumber 1)"
    by (simp add: Error_def MoneyloverApiError_def)
  have c1: "fst (fetchEnvToken False flaky_world) = Some (Inr (Some ''t0''))"
    by (simp add: sf(1))
  have c4: "\<forall>t2. fst (fetchEnvToken True ?w) \<noteq> Some (Inr (Some t2))"
    by (simp add: r)
  have c6: "fst (runWithResolvedToken None expired_op flaky_world)
       \<noteq> Some (Inl (MoneyloverApiError ''user_unauthenticated'' (CodeNumber 1)))"
    by (simp add: f d)
  show ?thesis
    unfolding w1_def [symmetric]
    by (intro conjI; fact c1 expired_op_first unauthenticated_is_auth_error c4 f c6)
qed

text \<open>
  Claim C3, as the code has it. The operation is run with a token \<open>t\<close> taken from
  \<open>fetchEnvToken\<close>, and fails with an authentication failure. \<open>fetchEnvToken\<close> is then
  called with \<open>forceRefresh = true\<close>, in the state the first run has left. If it
  yields a non-empty token \<open>t2\<close>, the operation is run a second and last time, with
  \<open>t2\<close>, and what that run yields, success or failure, is the result; the operation has
  been invoked with \<open>t\<close> and \<open>t2\<close> and no more. If the forced refresh fails, its
  error is the result, not the original one, and the operation has been invoked once.
  If it yields no token (\<open>null\<close>, or the empty string), the original error is the
  result and the operation has been invoked once. The three cases are stated for
  \<open>run_operation\<close>, the body of \<open>runWithResolvedToken\<close> once the token is resolved,
  from any state \<open>w'\<close>, and the first two also for \<open>runWithResolvedToken\<close> itself,
  which without a token argument is that body run with the token of \<open>fetchEnvToken\<close>,
  in the state it has left. With a token provided by the caller the operation is
  invoked once, its outcome is the result, and \<open>fetchEnvToken\<close> is not called.
\<close>

theorem auth_failure_refreshes_and_retries_once:
  "((providedToken = None \<or> providedToken = Some []) \<and>
    fetchEnvToken False w = (Some (Inr (Some t)), w1) \<and> t \<noteq> [] \<and>
    fn 0 t = Inl error \<and> isAuthError error
    \<longrightarrow> (let refreshed = fetchEnvToken True (w1\<lparr>events := events w1 @ [Operation t]\<rparr>);
              final = runWithResolvedToken providedToken fn w
          in (\<forall>t2. fst refreshed = Some (Inr (Some t2)) \<and> t2 \<noteq> []
                \<longrightarrow> final = (Some (fn 1 t2), (snd refreshed)\<lparr>events := events (snd refreshed) @ [Operation t2]\<rparr>) \<and>
                    operations (events (snd final)) = operations (events w) @ [t, t2]) \<and>
             (\<forall>refreshError. fst refreshed = Some (Inl refreshError)
                \<longrightarrow> final = (Some (Inl refreshError), snd refreshed) \<and>
                    operations (events (snd final)) = operations (events w) @ [t])))
   \<and> (fn 0 t = Inl error \<and> isAuthError error
    \<longrightarrow> (let refreshed = fetchEnvToken True (w'\<lparr>events := events w' @ [Operation t]\<rparr>);
              final = run_operation True t fn w'
          in (\<forall>t2. fst refreshed = Some (Inr (Some t2)) \<and> t2 \<noteq> []
                \<longrightarrow> final = (Some (fn 1 t2), (snd refreshed)\<lparr>events := events (snd refreshed) @ [Operation t2]\<rparr>) \<and>
                    operations (events (snd final)) = operations (events w') @ [t, t2]) \<and>
             (fst refreshed = Some (Inr None) \<or> fst refreshed = Some (Inr (Some []))
                \<longrightarrow> final = (Some (Inl error), snd refreshed) \<and>
                    operations (events (snd final)) = operations (events w') @ [t]) \<and>
             (\<forall>refreshError. fst refreshed = Some (Inl refreshError)
                \<longrightarrow> final = (Some (Inl refreshError), snd refreshed) \<and>
                    operations (events (snd final)) = operations (events w') @ [t])))
   \<and> ((providedToken = None \<or> providedToken = Some []) \<and>
    fetchEnvToken False w = (Some (Inr (Some t)), w1) \<and> t \<noteq> []
    \<longrightarrow> runWithResolvedToken providedToken fn w = run_operation True t fn w1 \<and>
        operations (events w1) = operations (events w))
   \<and> (t' \<noteq> []
    \<longrightarrow> runWithResolvedToken (Some t') fn w = (Some (fn 0 t'), w\<lparr>events := events w @ [Operation t']\<rparr>))"
proof -
  have op: "let refreshed = fetchEnvToken True (v\<lparr>events := events v @ [Operation t]\<rparr>);
              final = run_operation True t fn v
          in (\<forall>t2. fst refreshed = Some (Inr (Some t2)) \<and> t2 \<noteq> []
                \<longrightarrow> final = (Some (fn 1 t2), (snd refreshed)\<lparr>events := events (snd refreshed) @ [Operation t2]\<rparr>) \<and>
                    operations (events (snd final)) = operations (events v) @ [t, t2]) \<and>
             (fst refreshed = Some (Inr None) \<or> fst refreshed = Some (Inr (Some []))
                \<longrightarrow> final = (Some (Inl error), snd refreshed) \<and>
                    operations (events (snd final)) = operations (events v) @ [t]) \<and>
             (\<forall>refreshError. fst refreshed = Some (Inl refreshError)
                \<longrightarrow> final = (Some (Inl refreshError), snd refreshed) \<and>
                    operations (events (snd final)) = operations (events v) @ [t])"
    if a: "fn 0 t = Inl error" "isAuthError error" for v
  proof -
    define v' where "v' = v\<lparr>events := events v @ [Operation t]\<rparr>"
    have o: "operations (events (snd (fetchEnvToken True v'))) = operations (events v) @ [t]"
      by (simp add: ops_fetch v'_def)
    note r = run_operation_auth_failure [of fn t error v, OF a, folded v'_def]
    show ?thesis
      unfolding Let_def v'_def [symmetric] r
      using o by (cases "fetchEnvToken True v'") auto
  qed
  have link: "runWithResolvedToken providedToken fn w = run_operation True t fn w1 \<and>
        operations (events w1) = operations (events w)"
    if b: "providedToken = None \<or> providedToken = Some []"
      "fetchEnvToken False w = (Some (Inr (Some t)), w1)" "t \<noteq> []"
  proof
    show "runWithResolvedToken providedToken fn w = run_operation True t fn w1"
      using b by (rule run_via_env)
    show "operations (events w1) = operations (events w)"
      using ops_fetch [of False w] b(2) by simp
  qed
  have env: "let refreshed = fetchEnvToken True (w1\<lparr>events := events w1 @ [Operation t]\<rparr>);
              final = runWithResolvedToken providedToken fn w
          in (\<forall>t2. fst refreshed = Some (Inr (Some t2)) \<and> t2 \<noteq> []
                \<longrightarrow> final = (Some (fn 1 t2), (snd refreshed)\<lparr>events := events (snd refreshed) @ [Operation t2]\<rparr>) \<and>
                    operations (events (snd final)) = operations (events w) @ [t, t2]) \<and>
             (\<forall>refreshError. fst refreshed = Some (Inl refreshError)
                \<longrightarrow> final = (Some (Inl refreshError), snd refreshed) \<and>
                    operations (events (snd final)) = operations (events w) @ [t])"
    if b: "providedToken = None \<or> providedToken = Some []"
      "fetchEnvToken False w = (Some (Inr (Some t)), w1)" "t \<noteq> []"
      and a: "fn 0 t = Inl error" "isAuthError error"
  proof -
    note l = link [OF b]
    from op [OF a, of w1] show ?thesis
      unfolding Let_def l [THEN conjunct1] l [THEN conjunct2] by blast
  qed
  have explicit: "runWithResolvedToken (Some t') fn w = (Some (fn 0 t'), w\<lparr>events := events w @ [Operation t']\<rparr>)"
    if "t' \<noteq> []"
    using that by (simp add: runWithResolvedToken_def run_operation_explicit)
  show ?thesis
    using env op [of w'] link explicit by blast
qed

theorem auth_failure_refreshes_and_retries_once_witness:
  "fst (fetchEnvToken False stale_world) = Some (Inr (Some ''stale''))
   \<and> isAuthError (MoneyloverApiError ''user_unauthenticated'' (CodeNumber 1))
   \<and> fst (runWithResolvedToken None expired_op stale_world) = Some (Inr ''token-of-a@x.io'')
   \<and> operations (events (snd (runWithResolvedToken None expired_op stale_world))) = [''stale'', ''token-of-a@x.io'']
   \<and> runWithResolvedToken (Some ''jwt'') expired_op stale_world =
       (Some (Inl (MoneyloverApiError ''user_unauthenticated'' (CodeNumber 1))),
        stale_world\<lparr>events := events stale_world @ [Operation ''jwt'']\<rparr>)
   \<and> fst (fetchEnvToken False reject_world) = Some (Inr (Some ''stale''))
   \<and> fst (runWithResolvedToken None expired_op reject_world) =
       Some (Inl (Error ''Failed to retrieve access token: HTTP 401''))
   \<and> operations (events (snd (runWithResolvedToken None expired_op reject_world))) = [''stale'']
   \<and> fst (fetchEnvToken True (bare_world\<lparr>events := events bare_world @ [Operation ''stale'']\<rparr>)) =
       Some (Inr None)
   \<and> fst (run_operation True ''stale'' expired_op bare_world) =
       Some (Inl (MoneyloverApiError ''user_unauthenticated'' (CodeNumber 1)))
   \<and> operations (events (snd (run_operation True ''stale'' expired_op bare_world))) = [''stale'']
   \<and> runWithResolvedToken None expired_op stale_world =
       run_operation True ''stale'' expired_op (snd (fetchEnvToken False stale_world))"
proof -
  define w1 where "w1 = snd (fetchEnvToken False stale_world)"
  have h1: "fetchEnvToken False stale_world = (Some (Inr (Some ''stale'')), w1)"
    unfolding w1_def stale_world_def by (rule stale_start_fetch)
  have h2: "expired_op 0 ''stale'' = Inl (MoneyloverApiError ''user_unauthenticated'' (CodeNumber 1))"
    "expired_op 0 ''jwt'' = Inl (MoneyloverApiError ''user_unauthenticated'' (CodeNumber 1))"
    "expired_op 1 ''token-of-a@x.io'' = Inr ''token-of-a@x.io''"
    by (simp_all add: expired_op_def)
  have h3: "isAuthError (MoneyloverApiError ''user_unauthenticated'' (CodeNumber 1))"
    by (simp add: isAuthError_def MoneyloverApiError_def)
  have r: "fst (fetchEnvToken True (w1\<lparr>events := events w1 @ [Operation ''stale'']\<rparr>)) =
      Some (Inr (Some ''token-of-a@x.io''))"
    using stale_refresh [of demo_auth]
    by (simp add: w1_def stale_world_def demo_auth_def getToken_def)
  have o: "operations (events stale_world) = []"
    by (simp add: stale_world_fields)
  have "operations (events w1) = []"
    using ops_fetch [of False stale_world] o by (simp add: w1_def)
  then have o2: "operations (events (snd (fetchEnvToken True (w1\<lparr>events := events w1 @ [Operation ''stale'']\<rparr>))))
      = [''stale'']"
    by (simp add: ops_fetch)
  from auth_failure_refreshes_and_retries_once
         [where providedToken = None and w = stale_world and t = "''stale''" and ?w1.0 = w1
            and fn = expired_op and error = "MoneyloverApiError ''user_unauthenticated'' (CodeNumber 1)"
            and t' = "''jwt''"]
       h1 h2 h3 r o o2
  have token: "fst (fetchEnvToken False stale_world) = Some (Inr (Some ''stale''))
   \<and> isAuthError (MoneyloverApiError ''user_unauthenticated'' (CodeNumber 1))
   \<and> fst (runWithResolvedToken None expired_op stale_world) = Some (Inr ''token-of-a@x.io'')
   \<and> operations (events (snd (runWithResolvedToken None expired_op stale_world))) = [''stale'', ''token-of-a@x.io'']
   \<and> runWithResolvedToken (Some ''jwt'') expired_op stale_world =
       (Some (Inl (MoneyloverApiError ''user_unauthenticated'' (CodeNumber 1))),
        stale_world\<lparr>events := events stale_world @ [Operation ''jwt'']\<rparr>)"
    by (simp add: Let_def)
  define v1 where "v1 = snd (fetchEnvToken False reject_world)"
  note rf = reject_facts [folded v1_def]
  have rr: "fst (fetchEnvToken True (v1\<lparr>events := events v1 @ [Operation ''stale'']\<rparr>)) =
      Some (Inl (Error ''Failed to retrieve access token: HTTP 401''))"
    using stale_refresh [of reject_auth]
    by (simp add: v1_def reject_world_def reject_auth_def getToken_def)
  have i: "(None = None \<or> None = Some []) \<and>
      fetchEnvToken False reject_world = (Some (Inr (Some ''stale'')), v1) \<and> ''stale'' \<noteq> [] \<and>
      expired_op 0 ''stale'' = Inl (MoneyloverApiError ''user_unauthenticated'' (CodeNumber 1)) \<and>
      isAuthError (MoneyloverApiError ''user_unauthenticated'' (CodeNumber 1))"
    using rf(1) h2(1) h3 by simp
  note c = auth_failure_refreshes_and_retries_once
         [where providedToken = None and w = reject_world and t = "''stale''" and ?w1.0 = v1
            and fn = expired_op and error = "MoneyloverApiError ''user_unauthenticated'' (CodeNumber 1)",
          THEN conjunct1, THEN mp, OF i, unfolded Let_def, THEN conjunct2, rule_format, OF rr]
  have failed: "fst (runWithResolvedToken None expired_op reject_world) =
       Some (Inl (Error ''Failed to retrieve access token: HTTP 401''))
   \<and> operations (events (snd (runWithResolvedToken None expired_op reject_world))) = [''stale'']"
  proof
    show "fst (runWithResolvedToken None expired_op reject_world) =
       Some (Inl (Error ''Failed to retrieve access token: HTTP 401''))"
      using c [THEN conjunct1] by simp
    show "operations (events (snd (runWithResolvedToken None expired_op reject_world))) = [''stale'']"
      using c [THEN conjunct2] by (simp add: reject_operations)
  qed
  have rfst: "fst (fetchEnvToken False reject_world) = Some (Inr (Some ''stale''))"
    by (simp add: rf(1))
  have br: "fst (fetchEnvToken True (bare_world\<lparr>events := events bare_world @ [Operation ''stale'']\<rparr>)) =
       Some (Inr None)"
    by (simp add: bare_refresh)
  have j: "expired_op 0 ''stale'' = Inl (MoneyloverApiError ''user_unauthenticated'' (CodeNumber 1)) \<and>
      isAuthError (MoneyloverApiError ''user_unauthenticated'' (CodeNumber 1))"
    using h2(1) h3 by simp
  note n = auth_failure_refreshes_and_retries_once
         [where t = "''stale''" and fn = expired_op and w' = bare_world
            and error = "MoneyloverApiError ''user_unauthenticated'' (CodeNumber 1)",
          THEN conjunct2, THEN conjunct1, THEN mp, OF j, unfolded Let_def,
          THEN conjunct2, THEN conjunct1, THEN mp, OF disjI1, OF br]
  have null: "fst (run_operation True ''stale'' expired_op bare_world) =
       Some (Inl (MoneyloverApiError ''user_unauthenticated'' (CodeNumber 1)))
   \<and> operations (events (snd (run_operation True ''stale'' expired_op bare_world))) = [''stale'']"
  proof
    show "fst (run_operation True ''stale'' expired_op bare_world) =
       Some (Inl (MoneyloverApiError ''user_unauthenticated'' (CodeNumber 1)))"
      using n [THEN conjunct1] by simp
    show "operations (events (snd (run_operation True ''stale'' expired_op bare_world))) = [''stale'']"
      using n [THEN conjunct2] by (simp add: bare_operations)
  qed
  have k: "(None = None \<or> None = Some []) \<and>
      fetchEnvToken False stale_world = (Some (Inr (Some ''stale'')), w1) \<and> ''stale'' \<noteq> []"
    using h1 by simp
  note link = auth_failure_refreshes_and_retries_once
         [where providedToken = None and w = stale_world and t = "''stale''" and ?w1.0 = w1
            and fn = expired_op,
          THEN conjunct2, THEN conjunct2, THEN conjunct1, THEN mp, OF k, THEN conjunct1,
          unfolded w1_def]
  show ?thesis
    using token rfst failed br null link by blast
qed

text \<open>
  Claim C6, as the code has it. When the operation fails with an authentication failure
  and the exchange of the forced refresh fails in its turn (identity and secret are
  resolved, the store yields no token after the deletion, the authenticator answers
  with an error), that error of the exchange is what the caller gets. The original
  error is the result when the forced refresh ends with \<open>null\<close>, without an error:
  when the operation has failed with an authentication failure in a state where the
  identity or the secret is not configured, and no direct token either, the forced
  refresh yields \<open>null\<close> and the original error is the result.
\<close>

theorem refresh_failure_propagates:
  "((providedToken = None \<or> providedToken = Some []) \<and>
    fetchEnvToken False w = (Some (Inr (Some t)), w1) \<and> t \<noteq> [] \<and>
    fn 0 t = Inl error \<and> isAuthError error \<and>
    getEnvConfig (process_env w1) = (email, password, []) \<and> email \<noteq> [] \<and> password \<noteq> [] \<and>
    stored_token (readToken email (snd (removeToken email (disk w1)))) = [] \<and>
    getToken (authenticator w1 (length (exchanges w1)) email password) = Inl refreshError
    \<longrightarrow> fst (runWithResolvedToken providedToken fn w) = Some (Inl refreshError))
   \<and> (fn 0 t = Inl error \<and> isAuthError error \<and>
    getEnvConfig (process_env w') = (email', password', []) \<and> (email' = [] \<or> password' = [])
    \<longrightarrow> fst (fetchEnvToken True (w'\<lparr>events := events w' @ [Operation t]\<rparr>)) = Some (Inr None) \<and>
        fst (run_operation True t fn w') = Some (Inl error))"
proof (rule conjI [OF impI impI])
  assume a: "(providedToken = None \<or> providedToken = Some []) \<and>
    fetchEnvToken False w = (Some (Inr (Some t)), w1) \<and> t \<noteq> [] \<and>
    fn 0 t = Inl error \<and> isAuthError error \<and>
    getEnvConfig (process_env w1) = (email, password, []) \<and> email \<noteq> [] \<and> password \<noteq> [] \<and>
    stored_token (readToken email (snd (removeToken email (disk w1)))) = [] \<and>
    getToken (authenticator w1 (length (exchanges w1)) email password) = Inl refreshError"
  let ?w = "w1\<lparr>events := events w1 @ [Operation t]\<rparr>"
  have cfg: "getEnvConfig (process_env ?w) = (email, password, [])" "email \<noteq> []" "password \<noteq> []"
    using a by simp_all
  have "fst (fetchEnvToken True ?w) = Some (Inl refreshError)"
    using fetch_forced(1) [OF cfg] a by simp
  moreover have "runWithResolvedToken providedToken fn w =
      (case fetchEnvToken True ?w of
         (None, w2) \<Rightarrow> (None, w2)
       | (Some (Inl refreshError), w2) \<Rightarrow> (Some (Inl refreshError), w2)
       | (Some (Inr None), w2) \<Rightarrow> (Some (Inl error), w2)
       | (Some (Inr (Some t2)), w2) \<Rightarrow>
           if t2 = [] then (Some (Inl error), w2)
           else (Some (fn 1 t2), w2\<lparr>events := events w2 @ [Operation t2]\<rparr>))"
    using a by (intro run_after_auth_failure) simp_all
  ultimately show "fst (runWithResolvedToken providedToken fn w) = Some (Inl refreshError)"
    by (cases "fetchEnvToken True ?w") simp
next
  assume a: "fn 0 t = Inl error \<and> isAuthError error \<and>
    getEnvConfig (process_env w') = (email', password', []) \<and> (email' = [] \<or> password' = [])"
  let ?w = "w'\<lparr>events := events w' @ [Operation t]\<rparr>"
  have "getEnvConfig (process_env ?w) = (email', password', [])"
    using a by simp
  moreover have "email' = [] \<or> password' = []"
    using a by simp
  ultimately have f: "fetchEnvToken True ?w = (Some (Inr None), step ?w (Call True))"
    by (rule fetch_absent)
  have "run_operation True t fn w' = (Some (Inl error), step ?w (Call True))"
    using run_operation_auth_failure [of fn t error w'] a by (simp add: f)
  then show "fst (fetchEnvToken True ?w) = Some (Inr None) \<and>
        fst (run_operation True t fn w') = Some (Inl error)"
    by (simp add: f)
qed

theorem refresh_failure_propagates_witness:
  "fst (fetchEnvToken False reject_world) = Some (Inr (Some ''stale''))
   \<and> expired_op 0 ''stale'' = Inl (MoneyloverApiError ''user_unauthenticated'' (CodeNumber 1))
   \<and> isAuthError (MoneyloverApiError ''user_unauthenticated'' (CodeNumber 1))
   \<and> fst (runWithResolvedToken None expired_op reject_world) =
       Some (Inl (Error ''Failed to retrieve access token: HTTP 401''))
   \<and> getEnvConfig (process_env bare_world) = ([], [], [])
   \<and> fst (fetchEnvToken True (bare_world\<lparr>events := events bare_world @ [Operation ''stale'']\<rparr>)) =
       Some (Inr None)
   \<and> fst (run_operation True ''stale'' expired_op bare_world) =
       Some (Inl (MoneyloverApiError ''user_unauthenticated'' (CodeNumber 1)))"
proof -
  define w1 where "w1 = snd (fetchEnvToken False reject_world)"
  note rf = reject_facts [folded w1_def]
  have g: "getToken (authenticator w1 (length (exchanges w1)) ''a@x.io'' ''pw'') =
      Inl (Error ''Failed to retrieve access token: HTTP 401'')"
    by (simp add: rf reject_auth_def getToken_def)
  have st: "stored_token (readToken ''a@x.io'' (snd (removeToken ''a@x.io'' (disk w1)))) = []"
    by (simp add: rf stale_removed demo_read stored_token_def)
  have cfg: "getEnvConfig (process_env w1) = (''a@x.io'', ''pw'', [])"
    by (simp add: rf ident_env_config)
  from refresh_failure_propagates
         [of None reject_world "''stale''" w1 expired_op
             "MoneyloverApiError ''user_unauthenticated'' (CodeNumber 1)"
             "''a@x.io''" "''pw''" "Error ''Failed to retrieve access token: HTTP 401''",
          THEN conjunct1]
       rf(1) g st cfg expired_op_first [of "''stale''"] unauthenticated_is_auth_error
  have failed: "fst (fetchEnvToken False reject_world) = Some (Inr (Some ''stale''))
   \<and> expired_op 0 ''stale'' = Inl (MoneyloverApiError ''user_unauthenticated'' (CodeNumber 1))
   \<and> isAuthError (MoneyloverApiError ''user_unauthenticated'' (CodeNumber 1))
   \<and> fst (runWithResolvedToken None expired_op reject_world) =
       Some (Inl (Error ''Failed to retrieve access token: HTTP 401''))"
    by simp
  from refresh_failure_propagates
         [where t = "''stale''" and fn = expired_op and w' = bare_world
            and error = "MoneyloverApiError ''user_unauthenticated'' (CodeNumber 1)"
            and email' = "[]" and password' = "[]",
          THEN conjunct2]
       bare_absent expired_op_first [of "''stale''"] unauthenticated_is_auth_error
  have null: "fst (fetchEnvToken True (bare_world\<lparr>events := events bare_world @ [Operation ''stale'']\<rparr>)) =
       Some (Inr None)
   \<and> fst (run_operation True ''stale'' expired_op bare_world) =
       Some (Inl (MoneyloverApiError ''user_unauthenticated'' (CodeNumber 1)))"
    by simp
  show ?thesis
    using failed bare_absent null by blast
qed

text \<open>
  Counterexample to claim C6 as it is stated: with a stale stored token, an operation that
  fails with \<open>user_unauthenticated\<close> (code 1) and an authenticator that refuses the
  credentials, the caller gets the error of the exchange and not the original one.
\<close>

theorem refresh_failure_hides_original_error:
  "fst (fetchEnvToken False reject_world) = Some (Inr (Some ''stale''))
   \<and> expired_op 0 ''stale'' = Inl (MoneyloverApiError ''user_unauthenticated'' (CodeNumber 1))
   \<and> isAuthError (MoneyloverApiError ''user_unauthenticated'' (CodeNumber 1))
   \<and> fst (runWithResolvedToken None expired_op reject_world)
       \<noteq> Some (Inl (MoneyloverApiError ''user_unauthenticated'' (CodeNumber 1)))"
proof -
  define w1 where "w1 = snd (fetchEnvToken False reject_world)"
  note rf = reject_facts [folded w1_def]
  let ?w = "w1\<lparr>events := events w1 @ [Operation ''stale'']\<rparr>"
  have "fst (fetchEnvToken True ?w) = Some (Inl (Error ''Failed to retrieve access token: HTTP 401''))"
    using stale_refresh [of reject_auth]
    by (simp add: w1_def reject_world_def reject_auth_def getToken_def)
  moreover have "runWithResolvedToken None expired_op reject_world =
      (case fetchEnvToken True ?w of
         (None, w2) \<Rightarrow> (None, w2)
       | (Some (Inl refreshError), w2) \<Rightarrow> (Some (Inl refreshError), w2)
       | (Some (Inr None), w2) \<Rightarrow> (Some (Inl (MoneyloverApiError ''user_unauthenticated'' (CodeNumber 1))), w2)
       | (Some (Inr (Some t2)), w2) \<Rightarrow>
           if t2 = [] then (Some (Inl (MoneyloverApiError ''user_unauthenticated'' (CodeNumber 1))), w2)
           else (Some (expired_op 1 t2), w2\<lparr>events := events w2 @ [Operation t2]\<rparr>))"
    by (rule run_after_auth_failure)
       (simp_all add: rf(1) expired_op_first unauthenticated_is_auth_error)
  ultimately have "fst (runWithResolvedToken None expired_op reject_world) =
      Some (Inl (Error ''Failed to retrieve access token: HTTP 401''))"
    by (cases "fetchEnvToken True ?w") simp
  moreover have "Error ''Failed to retrieve access token: HTTP 401''
      \<noteq> MoneyloverApiError ''user_unauthenticated'' (CodeNumber 1)"
    by (simp add: Error_def MoneyloverApiError_def)
  ultimately show ?thesis
    using rf(1) by (simp add: expired_op_first unauthenticated_is_auth_error)
qed

section \<open>Concurrent calls\<close>

lemma encode_a: "encodeEmail ''a@x.io'' = ''YUB4Lmlv''"
  by (simp add: encodeEmail_def utf8_def base64url_alphabet_def)

lemma encode_b: "encodeEmail ''b@x.io'' = ''YkB4Lmlv''"
  by (simp add: encodeEmail_def utf8_def base64url_alphabet_def)

lemma trim_b: "trim ''b@x.io'' = ''b@x.io''"
  by (simp add: trim_def whitespace_def)

lemma other_env_config: "getEnvConfig other_env = (''b@x.io'', ''pw'', [])"
  by (simp add: getEnvConfig_def other_env_def DIRECT_TOKEN_ENV_KEYS_def trim_plain trim_b Let_def)

lemmas eval_defs =
  step.simps resume_def fetchEnvToken_enter_def fetchEnvToken_load_def fetchEnvToken_resolve_def
  after_removeToken_def after_readToken_def getToken_settled_def after_writeToken_def Let_def
  getToken_def demo_auth_def

lemma empty_world_eq:
  "empty_world = \<lparr>process_env = ident_env, cachedEnvEmail = [], cachedEnvToken = [], envTokenPromise = None,
      cacheLoaded = False, cachedEnvUsesDirectToken = False, disk = demo_fs, clock = ''now'',
      authenticator = demo_auth, calls = [], exchanges = [], events = []\<rparr>"
  by (simp add: empty_world_def start_def)



lemma demo_written:
  "writeToken ''a@x.io'' ''token-of-a@x.io'' ''now'' demo_fs =
     (Inr (), demo_fs\<lparr>files := [getTokenPath demo_fs ''a@x.io'' \<mapsto>
        Json (JObject [(''token'', JString ''token-of-a@x.io''), (''updatedAt'', JString ''now'')])]\<rparr>)"
  by (simp add: writeToken_def ensureCacheDir_def fs_mkdir_def fs_writeFile_def fs_chmod_def demo_fs_def
        Let_def JSON_stringify_def getTokenPath_def CACHE_DIR_def)

lemma other_read_after_write:
  "readToken ''b@x.io'' (demo_fs\<lparr>files := [getTokenPath demo_fs ''a@x.io'' \<mapsto> v]\<rparr>) = Inr None"
  by (simp add: readToken_def fs_readFile_def demo_fs_def getTokenPath_def CACHE_DIR_def
        encode_a encode_b fs_error_def)

lemma demo_read_b: "readToken ''b@x.io'' demo_fs = Inr None"
  by (simp add: readToken_def fs_readFile_def demo_fs_def fs_error_def)

text \<open>
  Claim C8 at an interleaving with a change of identity. The first call, for
  \<open>a@x.io\<close>, starts an exchange. The configuration changes to \<open>b@x.io\<close>, and the second
  call invalidates the cache and is suspended at its read of the store. The exchange
  for \<open>a@x.io\<close> then ends, and its handler stores its token in the cache. Resumed, the
  second call finds no record for \<open>b@x.io\<close>, then a token in the cache, and returns it:
  the call made for \<open>b@x.io\<close> yields the token of \<open>a@x.io\<close>, and no exchange for
  \<open>b@x.io\<close> is ever started.
\<close>

theorem stale_exchange_token_crosses_identities:
  "getEnvConfig (process_env (run empty_world
      [Call False, ReadDone 0, SetEnv other_env, Call False, ExchangeDone 0, WriteDone 0, ReadDone 1]))
     = (''b@x.io'', ''pw'', [])
   \<and> calls (run empty_world [Call False, ReadDone 0, SetEnv other_env, Call False])
     = [AwaitPromise 0, AwaitRead ''b@x.io'' ''pw'']
   \<and> cachedEnvToken (run empty_world [Call False, ReadDone 0, SetEnv other_env, Call False]) = []
   \<and> \<not> cacheLoaded (run empty_world [Call False, ReadDone 0, SetEnv other_env, Call False])
   \<and> call_result (run empty_world
      [Call False, ReadDone 0, SetEnv other_env, Call False, ExchangeDone 0, WriteDone 0, ReadDone 1]) 1
     = Some (Inr (Some ''token-of-a@x.io''))
   \<and> events (run empty_world
      [Call False, ReadDone 0, SetEnv other_env, Call False, ExchangeDone 0, WriteDone 0, ReadDone 1])
     = [ReadTokenCall ''a@x.io'', GetTokenCall ''a@x.io'' ''pw'', ReadTokenCall ''b@x.io'',
        WriteTokenCall ''a@x.io'' ''token-of-a@x.io'']"
  by (simp add: empty_world_eq ident_env_config other_env_config eval_defs demo_read demo_read_b
        demo_written other_read_after_write call_result_def)























text \<open>
  The invalidation itself holds whatever else is going on: a call made when identity
  and secret resolve and the identity differs from the cached one clears the cached
  token, the marker and the loaded flag before it is suspended, and it is suspended
  at an operation of the store for the new identity.
\<close>

lemma identity_change_invalidates:
  assumes "getEnvConfig (process_env w) = (email, password, [])" "email \<noteq> []" "password \<noteq> []"
    and "email \<noteq> cachedEnvEmail w"
  shows "cachedEnvEmail (step w (Call forceRefresh)) = email"
    and "cachedEnvToken (step w (Call forceRefresh)) = []"
    and "\<not> cacheLoaded (step w (Call forceRefresh))"
    and "envTokenPromise (step w (Call forceRefresh)) = None"
    and "calls (step w (Call forceRefresh)) =
           calls w @ [if forceRefresh then AwaitRemove email password else AwaitRead email password]"
  using assms
  by (simp_all add: step.simps fetchEnvToken_enter_def fetchEnvToken_load_def Let_def)

end
